theory Spec2Isabelle
  imports Complex_Main
begin

section \<open>Floating-point values\<close>

text \<open>
  The program computes on numpy/pandas \<^verbatim>\<open>float64\<close> values. They are modelled as reals
  extended by the three special values the code tests for and produces: the
  not-a-number sentinel (\<^verbatim>\<open>np.nan\<close>) and the two infinities (\<^verbatim>\<open>np.inf\<close>). The special
  values follow IEEE 754 as numpy applies it to arrays: any operation on NaN is NaN,
  \<^verbatim>\<open>x / 0\<close> is an infinity for \<^verbatim>\<open>x \<noteq> 0\<close> and NaN for \<^verbatim>\<open>0 / 0\<close>, \<^verbatim>\<open>0 * inf\<close> and
  \<^verbatim>\<open>inf - inf\<close> are NaN, and every comparison with NaN is false. The sign of zero is
  not modelled.

  The operations \<open>fl_add\<close>, \<open>fl_sub\<close>, \<open>fl_mul\<close>, \<open>fl_div\<close> give the exact real result;
  \<open>round64\<close> rounds a real to the nearest float64 value. The maximum drawdown and the
  rolling mean, whose results depend on the rounding, are computed with rounded
  operations.
\<close>

datatype fl = NaN | NInf | Fin real | PInf

fun fl_neg :: "fl \<Rightarrow> fl" where
  "fl_neg NaN = NaN"
| "fl_neg NInf = PInf"
| "fl_neg PInf = NInf"
| "fl_neg (Fin x) = Fin (- x)"

fun fl_abs :: "fl \<Rightarrow> fl" where
  "fl_abs NaN = NaN"
| "fl_abs NInf = PInf"
| "fl_abs PInf = PInf"
| "fl_abs (Fin x) = Fin \<bar>x\<bar>"

fun fl_add :: "fl \<Rightarrow> fl \<Rightarrow> fl" where
  "fl_add NaN _ = NaN"
| "fl_add _ NaN = NaN"
| "fl_add (Fin x) (Fin y) = Fin (x + y)"
| "fl_add PInf NInf = NaN"
| "fl_add NInf PInf = NaN"
| "fl_add PInf _ = PInf"
| "fl_add NInf _ = NInf"
| "fl_add (Fin x) y = y"

definition fl_sub :: "fl \<Rightarrow> fl \<Rightarrow> fl" where
  "fl_sub a b = fl_add a (fl_neg b)"

text \<open>The sign of an infinity times (or divided by) a finite value of sign \<open>x\<close>.\<close>

definition signed_inf :: "bool \<Rightarrow> fl" where
  "signed_inf positive = (if positive then PInf else NInf)"

fun fl_mul :: "fl \<Rightarrow> fl \<Rightarrow> fl" where
  "fl_mul NaN _ = NaN"
| "fl_mul _ NaN = NaN"
| "fl_mul (Fin x) (Fin y) = Fin (x * y)"
| "fl_mul (Fin x) PInf = (if x = 0 then NaN else signed_inf (0 < x))"
| "fl_mul (Fin x) NInf = (if x = 0 then NaN else signed_inf (x < 0))"
| "fl_mul PInf (Fin y) = (if y = 0 then NaN else signed_inf (0 < y))"
| "fl_mul NInf (Fin y) = (if y = 0 then NaN else signed_inf (y < 0))"
| "fl_mul PInf PInf = PInf"
| "fl_mul NInf NInf = PInf"
| "fl_mul PInf NInf = NInf"
| "fl_mul NInf PInf = NInf"

fun fl_div :: "fl \<Rightarrow> fl \<Rightarrow> fl" where
  "fl_div NaN _ = NaN"
| "fl_div _ NaN = NaN"
| "fl_div (Fin x) (Fin y) =
     (if y = 0 then (if x = 0 then NaN else signed_inf (0 < x)) else Fin (x / y))"
| "fl_div (Fin x) _ = Fin 0"
| "fl_div PInf (Fin y) = signed_inf (0 \<le> y)"
| "fl_div NInf (Fin y) = signed_inf (y < 0)"
| "fl_div _ _ = NaN"

fun fl_lt :: "fl \<Rightarrow> fl \<Rightarrow> bool" where
  "fl_lt NaN _ = False"
| "fl_lt _ NaN = False"
| "fl_lt (Fin x) (Fin y) = (x < y)"
| "fl_lt NInf NInf = False"
| "fl_lt NInf _ = True"
| "fl_lt _ NInf = False"
| "fl_lt PInf _ = False"
| "fl_lt (Fin x) PInf = True"

definition fl_gt :: "fl \<Rightarrow> fl \<Rightarrow> bool" where
  "fl_gt a b = fl_lt b a"

text \<open>\<^verbatim>\<open>a == b\<close> on floats: NaN equals nothing, itself included.\<close>

definition fl_eq :: "fl \<Rightarrow> fl \<Rightarrow> bool" where
  "fl_eq a b = (a \<noteq> NaN \<and> b \<noteq> NaN \<and> a = b)"

definition fl_le :: "fl \<Rightarrow> fl \<Rightarrow> bool" where
  "fl_le a b = (fl_lt a b \<or> fl_eq a b)"

definition fl_ge :: "fl \<Rightarrow> fl \<Rightarrow> bool" where
  "fl_ge a b = fl_le b a"

text \<open>\<^verbatim>\<open>np.sqrt\<close>.\<close>

fun fl_sqrt :: "fl \<Rightarrow> fl" where
  "fl_sqrt NaN = NaN"
| "fl_sqrt NInf = NaN"
| "fl_sqrt PInf = PInf"
| "fl_sqrt (Fin x) = (if x < 0 then NaN else Fin (sqrt x))"

subsection \<open>Rounding to float64\<close>

text \<open>
  A finite float64 value is an integer of magnitude below \<open>2^53\<close> times a power of two
  \<open>2^e\<close> with \<open>e \<ge> -1074\<close>, of magnitude below \<open>2^1024\<close>. \<open>round64\<close> is IEEE 754 rounding
  to nearest, ties to even: the real is divided by the spacing of the float64 values
  around it (\<open>2^(\<lfloor>log2 |x|\<rfloor> - 52)\<close>, and \<open>2^(-1074)\<close> in the subnormal range),
  rounded to the nearest integer, and a result of magnitude \<open>2^1024\<close> or more becomes
  an infinity.
\<close>

definition pow2 :: "int \<Rightarrow> real" where
  "pow2 e = 2 powr (of_int e)"

definition f64_exponent :: "real \<Rightarrow> int" where
  "f64_exponent x = max (\<lfloor>log 2 \<bar>x\<bar>\<rfloor> - 52) (- 1074)"

definition round_half_even :: "real \<Rightarrow> int" where
  "round_half_even q =
     (let f = \<lfloor>q\<rfloor>; d = q - of_int f
      in if d < 1/2 then f else if 1/2 < d then f + 1 else if even f then f else f + 1)"

definition round64 :: "real \<Rightarrow> fl" where
  "round64 x =
     (if x = 0 then Fin 0
      else
        let ulp = pow2 (f64_exponent x);
            y = of_int (round_half_even (x / ulp)) * ulp
        in if 2 ^ 1024 \<le> \<bar>y\<bar> then signed_inf (0 < x) else Fin y)"

text \<open>The reals that are float64 values.\<close>

definition is_float64 :: "real \<Rightarrow> bool" where
  "is_float64 b = (b = 0 \<or> (b / pow2 (f64_exponent b) \<in> \<int> \<and> \<bar>b\<bar> < 2 ^ 1024))"

text \<open>Float64 subtraction and division: the exact result, rounded.\<close>

fun fl_round :: "fl \<Rightarrow> fl" where
  "fl_round (Fin x) = round64 x"
| "fl_round v = v"

definition f64_sub :: "fl \<Rightarrow> fl \<Rightarrow> fl" where
  "f64_sub a b = fl_round (fl_sub a b)"

definition f64_div :: "fl \<Rightarrow> fl \<Rightarrow> fl" where
  "f64_div a b = fl_round (fl_div a b)"

section \<open>pandas Series operations\<close>

text \<open>
  A column of a DataFrame (a Series without its index) is the list of its values in row
  order. The pandas operations the program calls are modelled with the defaults the
  program relies on: reductions and cumulative operations skip NaN (\<^verbatim>\<open>skipna=True\<close>),
  \<^verbatim>\<open>std\<close> is the sample standard deviation (\<^verbatim>\<open>ddof=1\<close>).
\<close>

type_synonym series = "fl list"

text \<open>\<^verbatim>\<open>s.dropna()\<close> and \<^verbatim>\<open>s.fillna(v)\<close>.\<close>

definition dropna :: "series \<Rightarrow> series" where
  "dropna xs = filter (\<lambda>x. x \<noteq> NaN) xs"

definition fillna :: "fl \<Rightarrow> series \<Rightarrow> series" where
  "fillna v xs = map (\<lambda>x. if x = NaN then v else x) xs"

text \<open>\<^verbatim>\<open>s.shift(n)\<close> for \<open>n \<ge> 0\<close>: the values move down \<open>n\<close> rows, NaN enters at the top.\<close>

definition shift :: "nat \<Rightarrow> series \<Rightarrow> series" where
  "shift n xs = take (length xs) (replicate n NaN @ xs)"

text \<open>\<^verbatim>\<open>s.sum()\<close>, \<^verbatim>\<open>s.mean()\<close>, \<^verbatim>\<open>s.std()\<close>, \<^verbatim>\<open>s.min()\<close>, over the values that are not NaN.\<close>

fun fl_sum :: "fl list \<Rightarrow> fl" where
  "fl_sum [] = Fin 0"
| "fl_sum (x # xs) = fl_add x (fl_sum xs)"

definition series_sum :: "series \<Rightarrow> fl" where
  "series_sum xs = fl_sum (dropna xs)"

definition series_mean :: "series \<Rightarrow> fl" where
  "series_mean xs =
     (let ys = dropna xs
      in if ys = [] then NaN else fl_div (fl_sum ys) (Fin (real (length ys))))"

definition series_std :: "series \<Rightarrow> fl" where
  "series_std xs =
     (let ys = dropna xs; n = length ys
      in if n < 2 then NaN
         else
           let avg = fl_div (fl_sum ys) (Fin (real n));
               sqr = map (\<lambda>y. fl_mul (fl_sub avg y) (fl_sub avg y)) ys
           in fl_sqrt (fl_div (fl_sum sqr) (Fin (real (n - 1)))))"

fun fl_min_list :: "fl list \<Rightarrow> fl" where
  "fl_min_list [] = PInf"
| "fl_min_list (x # xs) = (let m = fl_min_list xs in if fl_lt m x then m else x)"

definition series_min :: "series \<Rightarrow> fl" where
  "series_min xs = (let ys = dropna xs in if ys = [] then NaN else fl_min_list ys)"

text \<open>
  \<^verbatim>\<open>s.cummax()\<close> and \<^verbatim>\<open>s.cumprod()\<close>: a NaN row stays NaN and does not take part in the
  accumulation (pandas accumulates with NaN replaced by \<open>-inf\<close>, respectively by 1, and
  writes NaN back).
\<close>

fun cummax_from :: "fl \<Rightarrow> series \<Rightarrow> series" where
  "cummax_from acc [] = []"
| "cummax_from acc (x # xs) =
     (if x = NaN then NaN # cummax_from acc xs
      else let m = (if fl_lt acc x then x else acc) in m # cummax_from m xs)"

definition cummax :: "series \<Rightarrow> series" where
  "cummax xs = cummax_from NInf xs"

fun cumprod_from :: "fl \<Rightarrow> series \<Rightarrow> series" where
  "cumprod_from acc [] = []"
| "cumprod_from acc (x # xs) =
     (if x = NaN then NaN # cumprod_from acc xs
      else let a = fl_mul acc x in a # cumprod_from a xs)"

definition cumprod :: "series \<Rightarrow> series" where
  "cumprod xs = cumprod_from (Fin 1) xs"

text \<open>\<^verbatim>\<open>s.ffill()\<close>: a NaN row takes the last value above it that is not NaN.\<close>

fun ffill_from :: "fl \<Rightarrow> series \<Rightarrow> series" where
  "ffill_from prev [] = []"
| "ffill_from prev (x # xs) =
     (if x = NaN then prev # ffill_from prev xs else x # ffill_from x xs)"

definition ffill :: "series \<Rightarrow> series" where
  "ffill xs = ffill_from NaN xs"

text \<open>
  \<^verbatim>\<open>s.pct_change()\<close> with the defaults \<^verbatim>\<open>periods=1, fill_method='pad'\<close>: the series is
  forward-filled, then divided row by row by its shift, minus one. \<^verbatim>\<open>s.diff()\<close> is
  the series minus its shift.
\<close>

definition pct_change :: "series \<Rightarrow> series" where
  "pct_change xs =
     (let filled = ffill xs
      in map2 (\<lambda>a b. fl_sub (fl_div a b) (Fin 1)) filled (shift 1 filled))"

definition diff :: "series \<Rightarrow> series" where
  "diff xs = map2 fl_sub xs (shift 1 xs)"

section \<open>DataFrames\<close>

text \<open>
  A DataFrame is its index (the dates, as day numbers, in row order) and its columns by
  name, each column holding one value per row. The index labels of the frames handed to
  the program are unique (the price history has no duplicate dates); label-based
  selection is modelled for such frames.
\<close>

type_synonym date = int

record frame =
  index :: "date list"
  columns :: "(string \<times> series) list"

text \<open>\<^verbatim>\<open>name in df.columns\<close> and \<^verbatim>\<open>df[name]\<close>: \<open>None\<close> when the column is missing.\<close>

definition column :: "frame \<Rightarrow> string \<Rightarrow> series option" where
  "column df name = map_of (columns df) name"

text \<open>\<^verbatim>\<open>df.empty\<close>: some axis has length 0 (no rows, or no columns).\<close>

definition frame_empty :: "frame \<Rightarrow> bool" where
  "frame_empty df = (index df = [] \<or> columns df = [])"

text \<open>
  \<^verbatim>\<open>a.intersection(b)\<close> on indexes keeps the labels of \<open>a\<close> that occur in \<open>b\<close>, in the
  order of \<open>a\<close>. \<^verbatim>\<open>df.loc[labels][name]\<close> reads the column at each label in turn.
\<close>

definition index_intersection :: "date list \<Rightarrow> date list \<Rightarrow> date list" where
  "index_intersection a b = filter (\<lambda>d. d \<in> set b) a"

definition loc_values :: "date list \<Rightarrow> series \<Rightarrow> date list \<Rightarrow> series" where
  "loc_values idx vals labels =
     map (\<lambda>d. case map_of (zip idx vals) d of Some v \<Rightarrow> v | None \<Rightarrow> NaN) labels"

section \<open>The simulator (\<^verbatim>\<open>src/backtester.py\<close>)\<close>

text \<open>The portfolio DataFrame that \<^verbatim>\<open>run_backtest\<close> builds, column by column.\<close>

record portfolio =
  p_index :: "date list"
  adj_close :: series
  signal :: series
  position :: series
  market_return :: series
  strategy_return :: series
  cumulative_market :: series
  cumulative_strategy :: series
  equity_curve :: series

text \<open>
  The position rule of line 49:
  \<^verbatim>\<open>lambda x: 1.0 if x > 0 else (-1.0 if x < 0 and allow_shorting else 0.0)\<close>.
\<close>

definition position_rule :: "bool \<Rightarrow> fl \<Rightarrow> fl" where
  "position_rule allow_shorting x =
     (if fl_gt x (Fin 0) then Fin 1
      else if fl_lt x (Fin 0) \<and> allow_shorting then Fin (- 1)
      else Fin 0)"

text \<open>
  Lines 38 to 60: the columns computed from the aligned prices and signals. The fill of
  line 55 (\<^verbatim>\<open>portfolio['strategy_return'].fillna(0.0, inplace=True)\<close>) is taken to
  write through to the frame, as its comment intends.
\<close>

definition make_portfolio :: "date list \<Rightarrow> series \<Rightarrow> series \<Rightarrow> fl \<Rightarrow> bool \<Rightarrow> portfolio" where
  "make_portfolio common_index prices signals initial_capital allow_shorting =
     (let market = fillna (Fin 0) (pct_change prices);
          shifted_signal = fillna (Fin 0) (shift 1 signals);
          pos = map (position_rule allow_shorting) shifted_signal;
          strat = fillna (Fin 0) (map2 fl_mul pos market);
          cum_market = cumprod (map (fl_add (Fin 1)) market);
          cum_strategy = cumprod (map (fl_add (Fin 1)) strat)
      in \<lparr> p_index = common_index,
           adj_close = prices,
           signal = signals,
           position = pos,
           market_return = market,
           strategy_return = strat,
           cumulative_market = cum_market,
           cumulative_strategy = cum_strategy,
           equity_curve = map (fl_mul initial_capital) cum_strategy \<rparr>)"

text \<open>
  \<^verbatim>\<open>s.first_valid_index()\<close>, as a row number: the first row whose value is not NaN.
  \<^verbatim>\<open>portfolio.loc[label:]\<close> keeps the rows from that row on.
\<close>

fun first_valid_index :: "series \<Rightarrow> nat option" where
  "first_valid_index [] = None"
| "first_valid_index (x # xs) =
     (if x \<noteq> NaN then Some 0 else map_option Suc (first_valid_index xs))"

definition rows_from :: "nat \<Rightarrow> portfolio \<Rightarrow> portfolio" where
  "rows_from k p =
     \<lparr> p_index = drop k (p_index p),
       adj_close = drop k (adj_close p),
       signal = drop k (signal p),
       position = drop k (position p),
       market_return = drop k (market_return p),
       strategy_return = drop k (strategy_return p),
       cumulative_market = drop k (cumulative_market p),
       cumulative_strategy = drop k (cumulative_strategy p),
       equity_curve = drop k (equity_curve p) \<rparr>"

text \<open>Lines 62 to 75: the truncation, and the two failures after it.\<close>

definition truncate_portfolio :: "portfolio \<Rightarrow> portfolio option" where
  "truncate_portfolio p =
     (case first_valid_index (strategy_return p) of
        None \<Rightarrow> None
      | Some k \<Rightarrow>
          let p' = rows_from k p
          in if p_index p' = [] then None else Some p')"

text \<open>
  \<^verbatim>\<open>run_backtest(data, signals, initial_capital, allow_shorting)\<close>. Either frame may be
  Python's \<^verbatim>\<open>None\<close>; the result is \<^verbatim>\<open>None\<close> on every failure (``Returns None if inputs
  are invalid'').
\<close>

definition run_backtest :: "frame option \<Rightarrow> frame option \<Rightarrow> fl \<Rightarrow> bool \<Rightarrow> portfolio option" where
  "run_backtest data signals initial_capital allow_shorting =
     (case data of
        None \<Rightarrow> None
      | Some d \<Rightarrow>
          (case signals of
             None \<Rightarrow> None
           | Some s \<Rightarrow>
               if frame_empty d \<or> frame_empty s then None
               else
                 (case column d ''Adj Close'' of
                    None \<Rightarrow> None
                  | Some prices \<Rightarrow>
                      (case column s ''signal'' of
                         None \<Rightarrow> None
                       | Some sigs \<Rightarrow>
                           let common_index = index_intersection (index d) (index s)
                           in if common_index = [] then None
                              else truncate_portfolio
                                     (make_portfolio common_index
                                        (loc_values (index d) prices common_index)
                                        (loc_values (index s) sigs common_index)
                                        initial_capital allow_shorting)))))"

text \<open>
  The transformation the shorting invariant of the specification speaks of: every \<open>-1\<close>
  of the signal column replaced by \<open>0\<close> before the simulation. It is not part of the
  program.
\<close>

definition replace_short_by_flat :: "frame \<Rightarrow> frame" where
  "replace_short_by_flat s =
     s\<lparr> columns :=
          map (\<lambda>(name, vals).
                 if name = ''signal''
                 then (name, map (\<lambda>x. if x = Fin (- 1) then Fin 0 else x) vals)
                 else (name, vals))
            (columns s) \<rparr>"

text \<open>The columns of a portfolio other than the echoed \<^verbatim>\<open>signal\<close> column.\<close>

definition computed_columns ::
  "portfolio \<Rightarrow> date list \<times> series \<times> series \<times> series \<times> series \<times> series \<times> series \<times> series" where
  "computed_columns p =
     (p_index p, adj_close p, position p, market_return p, strategy_return p,
      cumulative_market p, cumulative_strategy p, equity_curve p)"

section \<open>Rolling windows and masks\<close>

text \<open>
  \<^verbatim>\<open>s.rolling(window=w, min_periods=m)\<close>: the window of row \<open>i\<close> holds the rows
  \<open>i - w + 1\<close> to \<open>i\<close> that exist. Its observations are the finite values in it
  (pandas turns infinities into NaN before rolling). \<^verbatim>\<open>mean()\<close> is defined when there
  are at least \<open>m\<close> observations and at least one; \<^verbatim>\<open>std()\<close> (sample deviation, \<^verbatim>\<open>ddof=1\<close>)
  when there are at least \<open>m\<close> and at least two. Window sizes are natural numbers here.

  pandas divides a running float64 sum of the window by the number of observations.
  The mean is modelled as the exact mean rounded to float64, which is that quotient
  whenever the running sum is exact. The deviation is left unrounded.
\<close>

definition window_at :: "nat \<Rightarrow> series \<Rightarrow> nat \<Rightarrow> series" where
  "window_at w xs i = drop (Suc i - w) (take (Suc i) xs)"

fun observed :: "series \<Rightarrow> real list" where
  "observed [] = []"
| "observed (Fin x # xs) = x # observed xs"
| "observed (_ # xs) = observed xs"

definition window_mean :: "nat \<Rightarrow> series \<Rightarrow> fl" where
  "window_mean min_periods win =
     (let obs = observed win; nobs = length obs
      in if min_periods \<le> nobs \<and> 0 < nobs then round64 (sum_list obs / real nobs) else NaN)"

definition window_std :: "nat \<Rightarrow> series \<Rightarrow> fl" where
  "window_std min_periods win =
     (let obs = observed win; nobs = length obs
      in if min_periods \<le> nobs \<and> 1 < nobs then
           let avg = sum_list obs / real nobs
           in Fin (sqrt (sum_list (map (\<lambda>x. (x - avg) * (x - avg)) obs) / real (nobs - 1)))
         else NaN)"

definition rolling_mean :: "nat \<Rightarrow> nat \<Rightarrow> series \<Rightarrow> series" where
  "rolling_mean w min_periods xs =
     map (\<lambda>i. window_mean min_periods (window_at w xs i)) [0..<length xs]"

definition rolling_std :: "nat \<Rightarrow> nat \<Rightarrow> series \<Rightarrow> series" where
  "rolling_std w min_periods xs =
     map (\<lambda>i. window_std min_periods (window_at w xs i)) [0..<length xs]"

text \<open>
  Boolean masks: a comparison of two columns row by row, \<^verbatim>\<open>m1 & m2\<close>, and the
  assignment \<^verbatim>\<open>df.loc[mask, col] = v\<close>.
\<close>

definition compare_rows :: "(fl \<Rightarrow> fl \<Rightarrow> bool) \<Rightarrow> series \<Rightarrow> series \<Rightarrow> bool list" where
  "compare_rows rel xs ys = map2 rel xs ys"

definition mask_and :: "bool list \<Rightarrow> bool list \<Rightarrow> bool list" where
  "mask_and m1 m2 = map2 (\<and>) m1 m2"

definition assign_where :: "bool list \<Rightarrow> fl \<Rightarrow> series \<Rightarrow> series" where
  "assign_where msk v xs = map2 (\<lambda>m x. if m then v else x) msk xs"

section \<open>Strategies (\<^verbatim>\<open>src/strategy.py\<close>)\<close>

datatype error = ValueError | KeyError

subsection \<open>SMA crossover\<close>

text \<open>
  \<^verbatim>\<open>SMACrossoverStrategy.__init__\<close>: the base class raises \<^verbatim>\<open>ValueError\<close> on an empty
  frame, the subclass when \<^verbatim>\<open>short_window >= long_window\<close> and when the data has fewer
  rows than the long window. The base class starts the signal column at \<open>0.0\<close>.
\<close>

record sma_strategy =
  sma_data :: frame
  short_window :: nat
  long_window :: nat

definition SMACrossoverStrategy :: "frame \<Rightarrow> nat \<Rightarrow> nat \<Rightarrow> error + sma_strategy" where
  "SMACrossoverStrategy data short long =
     (if frame_empty data then Inl ValueError
      else if long \<le> short then Inl ValueError
      else if length (index data) < long then Inl ValueError
      else Inr \<lparr> sma_data = data, short_window = short, long_window = long \<rparr>)"

text \<open>
  \<^verbatim>\<open>SMACrossoverStrategy.generate_signals\<close>, on the columns: the two entry masks, the
  forward fill, the two corrections (the second reads the column the first has written).
  A frame without the price column raises \<^verbatim>\<open>KeyError\<close>.
\<close>

definition sma_signal :: "nat \<Rightarrow> nat \<Rightarrow> series \<Rightarrow> series" where
  "sma_signal short long prices =
     (let short_sma = rolling_mean short short prices;
          long_sma = rolling_mean long long prices;
          signal0 = replicate (length prices) (Fin 0);
          crossed_above = mask_and (compare_rows fl_gt (shift 1 short_sma) (shift 1 long_sma))
                                   (compare_rows fl_le (shift 2 short_sma) (shift 2 long_sma));
          signal1 = assign_where crossed_above (Fin 1) signal0;
          crossed_below = mask_and (compare_rows fl_lt (shift 1 short_sma) (shift 1 long_sma))
                                   (compare_rows fl_ge (shift 2 short_sma) (shift 2 long_sma));
          signal2 = assign_where crossed_below (Fin (- 1)) signal1;
          signal3 = fillna (Fin 0) (ffill signal2);
          sell = mask_and (map (\<lambda>x. fl_eq x (Fin 1)) (shift 1 signal3))
                          (compare_rows fl_lt short_sma long_sma);
          signal4 = assign_where sell (Fin 0) signal3;
          cover = mask_and (map (\<lambda>x. fl_eq x (Fin (- 1))) (shift 1 signal4))
                           (compare_rows fl_gt short_sma long_sma)
      in assign_where cover (Fin 0) signal4)"

definition sma_generate_signals :: "sma_strategy \<Rightarrow> error + frame" where
  "sma_generate_signals st =
     (case column (sma_data st) ''Adj Close'' of
        None \<Rightarrow> Inl KeyError
      | Some prices \<Rightarrow>
          Inr \<lparr> index = index (sma_data st),
                columns = [(''signal'', sma_signal (short_window st) (long_window st) prices)] \<rparr>)"

subsection \<open>Mean reversion\<close>

text \<open>
  \<^verbatim>\<open>MeanReversionStrategy.__init__\<close> raises \<^verbatim>\<open>ValueError\<close> on an empty frame and when
  the data has fewer rows than the window. \<^verbatim>\<open>int(window * 0.8)\<close> is \<open>4 * window div 5\<close>.
\<close>

record mr_strategy =
  mr_data :: frame
  mr_window :: nat
  entry_z :: fl
  exit_z :: fl

definition MeanReversionStrategy :: "frame \<Rightarrow> nat \<Rightarrow> fl \<Rightarrow> fl \<Rightarrow> error + mr_strategy" where
  "MeanReversionStrategy data window entry exit =
     (if frame_empty data then Inl ValueError
      else if length (index data) < window then Inl ValueError
      else Inr \<lparr> mr_data = data, mr_window = window, entry_z = entry, exit_z = exit \<rparr>)"

text \<open>Lines 63 to 70: the z-score of each row, shifted by one row.\<close>

definition z_score_shifted :: "nat \<Rightarrow> series \<Rightarrow> series" where
  "z_score_shifted window prices =
     (let min_periods = 4 * window div 5;
          rolling_mean = rolling_mean window min_periods prices;
          rolling_std = map (\<lambda>x. if fl_eq x (Fin 0) then NaN else x)
                          (rolling_std window min_periods prices);
          z_score = map2 fl_div (map2 fl_sub prices rolling_mean) rolling_std
      in shift 1 z_score)"

text \<open>
  Lines 72 to 90: the four assignments, each on the whole column. The first exit mask
  reads the column as the entries left it, the second as the first exit left it.
\<close>

definition mr_signal :: "fl \<Rightarrow> fl \<Rightarrow> series \<Rightarrow> series" where
  "mr_signal entry exit zs =
     (let signal0 = replicate (length zs) (Fin 0);
          signal1 = assign_where (map (\<lambda>z. fl_lt z (fl_neg entry)) zs) (Fin 1) signal0;
          signal2 = assign_where (map (\<lambda>z. fl_gt z entry) zs) (Fin (- 1)) signal1;
          flatten_long_condition =
            mask_and (map (\<lambda>x. fl_eq x (Fin 1)) (shift 1 signal2))
                     (map (\<lambda>z. fl_gt z (fl_neg exit)) zs);
          signal3 = assign_where flatten_long_condition (Fin 0) signal2;
          flatten_short_condition =
            mask_and (map (\<lambda>x. fl_eq x (Fin (- 1))) (shift 1 signal3))
                     (map (\<lambda>z. fl_lt z exit) zs)
      in assign_where flatten_short_condition (Fin 0) signal3)"

definition mr_generate_signals :: "mr_strategy \<Rightarrow> error + frame" where
  "mr_generate_signals st =
     (case column (mr_data st) ''Adj Close'' of
        None \<Rightarrow> Inl KeyError
      | Some prices \<Rightarrow>
          Inr \<lparr> index = index (mr_data st),
                columns = [(''signal'',
                   mr_signal (entry_z st) (exit_z st) (z_score_shifted (mr_window st) prices))] \<rparr>)"

text \<open>
  The recurrence that the specification describes for the mean-reversion signal: the
  entry of the day, overridden by an exit to flat that tests the final signal of the
  day before. It is not part of the program.
\<close>

definition mr_entry :: "fl \<Rightarrow> fl \<Rightarrow> fl" where
  "mr_entry entry z =
     (if fl_gt z entry then Fin (- 1) else if fl_lt z (fl_neg entry) then Fin 1 else Fin 0)"

fun mr_recurrence :: "fl \<Rightarrow> fl \<Rightarrow> fl \<Rightarrow> series \<Rightarrow> series" where
  "mr_recurrence entry exit prev [] = []"
| "mr_recurrence entry exit prev (z # zs) =
     (let today = (if (fl_eq prev (Fin 1) \<and> fl_gt z (fl_neg exit))
                      \<or> (fl_eq prev (Fin (- 1)) \<and> fl_lt z exit)
                   then Fin 0 else mr_entry entry z)
      in today # mr_recurrence entry exit today zs)"

section \<open>Total trades (\<^verbatim>\<open>calculate_performance_metrics\<close>)\<close>

text \<open>
  Line 140: \<^verbatim>\<open>portfolio['position'].diff().fillna(0).abs().sum() / 2\<close>. The metrics
  dictionary has no such entry when the portfolio is \<^verbatim>\<open>None\<close> or empty.
\<close>

definition total_trades :: "portfolio \<Rightarrow> fl" where
  "total_trades p =
     fl_div (series_sum (map fl_abs (fillna (Fin 0) (diff (position p))))) (Fin 2)"

definition metrics_total_trades :: "portfolio option \<Rightarrow> fl option" where
  "metrics_total_trades portfolio =
     (case portfolio of
        None \<Rightarrow> None
      | Some p \<Rightarrow> if p_index p = [] then None else Some (total_trades p))"

text \<open>
  One \<^verbatim>\<open>sma_crossover\<close> configuration of the sweep (\<^verbatim>\<open>main.py\<close>, lines 107 to 123):
  strategy, signals, backtest, and the Total Trades entry of the metrics.
\<close>

definition sma_crossover_total_trades ::
  "frame \<Rightarrow> nat \<Rightarrow> nat \<Rightarrow> fl \<Rightarrow> bool \<Rightarrow> error + fl option" where
  "sma_crossover_total_trades data short long initial_capital allow_shorting =
     (case SMACrossoverStrategy data short long of
        Inl e \<Rightarrow> Inl e
      | Inr st \<Rightarrow>
          (case sma_generate_signals st of
             Inl e \<Rightarrow> Inl e
           | Inr signals \<Rightarrow>
               Inr (metrics_total_trades
                      (run_backtest (Some data) (Some signals) initial_capital allow_shorting))))"

section \<open>Performance metrics (\<^verbatim>\<open>src/performance.py\<close>)\<close>

subsection \<open>Calmar ratio\<close>

text \<open>
  \<^verbatim>\<open>calculate_calmar(cagr, max_drawdown)\<close>. Either argument may be Python's \<^verbatim>\<open>None\<close>
  (\<^verbatim>\<open>pd.isna(None)\<close> is true), hence the option types. The source's tests, in order:
  \<^verbatim>\<open>max_drawdown is None or max_drawdown == 0 or pd.isna(cagr) or pd.isna(max_drawdown)\<close>
  returns NaN; a positive drawdown is negated; the result is \<^verbatim>\<open>cagr / abs(max_drawdown)\<close>.
\<close>

definition calculate_calmar :: "fl option \<Rightarrow> fl option \<Rightarrow> fl" where
  "calculate_calmar cagr max_drawdown =
     (case max_drawdown of
        None \<Rightarrow> NaN
      | Some md \<Rightarrow>
          if fl_eq md (Fin 0) then NaN
          else (case cagr of
                  None \<Rightarrow> NaN
                | Some c \<Rightarrow>
                    if c = NaN \<or> md = NaN then NaN
                    else
                      let md' = (if fl_gt md (Fin 0) then fl_neg md else md)
                      in fl_div c (fl_abs md')))"

subsection \<open>Maximum drawdown\<close>

text \<open>
  \<^verbatim>\<open>calculate_max_drawdown(portfolio_value)\<close>: NaN for \<^verbatim>\<open>None\<close>, for fewer than two
  points (before and after dropping NaN) and when any value is \<open>\<le> 0\<close>; otherwise the
  minimum of \<^verbatim>\<open>(cumulative - running_max) / running_max\<close> on the curve normalised by
  its first value. The two divisions and the subtraction are float64 operations.
\<close>

definition calculate_max_drawdown :: "series option \<Rightarrow> fl" where
  "calculate_max_drawdown portfolio_value =
     (case portfolio_value of
        None \<Rightarrow> NaN
      | Some pv0 \<Rightarrow>
          if length pv0 < 2 then NaN
          else
            let pv = dropna pv0
            in if length pv < 2 then NaN
               else if list_ex (\<lambda>v. fl_le v (Fin 0)) pv then NaN
               else
                 let cumulative_returns = map (\<lambda>v. f64_div v (hd pv)) pv;
                     running_max = cummax cumulative_returns;
                     drawdown = map2 (\<lambda>c r. f64_div (f64_sub c r) r)
                                  cumulative_returns running_max
                 in series_min drawdown)"

subsection \<open>Sortino ratio\<close>

text \<open>
  \<^verbatim>\<open>calculate_sortino(returns, risk_free_rate)\<close>. \<^verbatim>\<open>excess_returns\<close> is the series
  without its NaN minus the daily risk-free rate; \<^verbatim>\<open>negative_excess_returns\<close> keeps
  the entries strictly below zero.
\<close>

definition excess_returns :: "series \<Rightarrow> fl \<Rightarrow> series" where
  "excess_returns returns risk_free_rate =
     map (\<lambda>r. fl_sub r (fl_div risk_free_rate (Fin 252))) (dropna returns)"

definition negative_excess_returns :: "series \<Rightarrow> series" where
  "negative_excess_returns excess = filter (\<lambda>x. fl_lt x (Fin 0)) excess"

definition calculate_sortino :: "series option \<Rightarrow> fl \<Rightarrow> fl" where
  "calculate_sortino returns risk_free_rate =
     (case returns of
        None \<Rightarrow> NaN
      | Some rs \<Rightarrow>
          if length rs < 2 then NaN
          else if length (dropna rs) < 2 then NaN
          else
            let excess = excess_returns rs risk_free_rate;
                negative = negative_excess_returns excess
            in if negative = [] then
                 (if fl_gt (series_mean excess) (Fin 0) then PInf else NaN)
               else
                 let downside_deviation = series_std negative
                 in if fl_eq downside_deviation (Fin 0) \<or> downside_deviation = NaN then
                      (if fl_gt (series_mean excess) (Fin 0) then PInf else NaN)
                    else
                      fl_mul (fl_div (series_mean excess) downside_deviation)
                        (Fin (sqrt 252)))"

section \<open>Example inputs\<close>

text \<open>Three days of prices and signals on them, used to run the definitions.\<close>

definition demo_prices :: frame where
  "demo_prices = \<lparr> index = [1, 2, 3], columns = [(''Adj Close'', [Fin 100, Fin 110, Fin 121])] \<rparr>"

definition demo_signals :: frame where
  "demo_signals = \<lparr> index = [1, 2, 3], columns = [(''signal'', [Fin (- 1), Fin 1, Fin 0])] \<rparr>"

definition demo_flat_signals :: frame where
  "demo_flat_signals = \<lparr> index = [1, 2, 3], columns = [(''signal'', [Fin 0, Fin 0, Fin 0])] \<rparr>"

definition demo_late_signals :: frame where
  "demo_late_signals = \<lparr> index = [7, 8], columns = [(''signal'', [Fin 1, Fin 1])] \<rparr>"

definition demo_unfilled :: portfolio where
  "demo_unfilled =
     \<lparr> p_index = [1], adj_close = [Fin 100], signal = [Fin 0], position = [Fin 0],
       market_return = [Fin 0], strategy_return = [NaN], cumulative_market = [Fin 1],
       cumulative_strategy = [Fin 1], equity_curve = [Fin 100000] \<rparr>"

definition demo_other_signals :: frame where
  "demo_other_signals = \<lparr> index = [1, 2, 3], columns = [(''signal'', [Fin (- 1), Fin 0, Fin (- 1)])] \<rparr>"

definition rising_prices :: frame where
  "rising_prices =
     \<lparr> index = [1, 2, 3, 4, 5, 6, 7, 8, 9, 10],
       columns = [(''Adj Close'', map Fin [1, 2, 3, 4, 5, 6, 7, 8, 9, 10])] \<rparr>"

definition tie_prices :: "real list" where
  "tie_prices = [10000000000000000, 10000000000000002, 10000000000000004, 10000000000000006,
     10000000000000008, 10000000000000010, 10000000000000012, 10000000000000014, 10000000000000016,
     10000000000000018]"

definition demo_mr_prices :: frame where
  "demo_mr_prices =
     \<lparr> index = [1, 2, 3, 4, 5, 6], columns = [(''Adj Close'', [Fin 1, Fin 2, Fin 3, Fin 1, Fin 5, Fin 3])] \<rparr>"

definition demo_mr_strategy :: mr_strategy where
  "demo_mr_strategy =
     \<lparr> mr_data = demo_mr_prices, mr_window = 3, entry_z = Fin (9/10), exit_z = Fin (1/2) \<rparr>"

section \<open>Properties of float64 rounding\<close>

lemma pow2_pos [simp]: "0 < pow2 e"
  by (simp add: pow2_def)

lemma pow2_nonzero [simp]: "pow2 e \<noteq> 0"
  by (simp add: pow2_def)

lemma pow2_nonneg [simp]: "0 \<le> pow2 e"
  by (simp add: pow2_def)

lemma pow2_add: "pow2 (a + b) = pow2 a * pow2 b"
  by (simp add: pow2_def powr_add)

lemma pow2_diff: "pow2 (a - b) = pow2 a / pow2 b"
  by (simp add: pow2_def powr_diff)

lemma pow2_nat: "pow2 (int n) = 2 ^ n"
  by (simp add: pow2_def powr_realpow)

lemma pow2_Ints: "0 \<le> e \<Longrightarrow> pow2 e \<in> \<int>"
proof -
  assume "0 \<le> e"
  then have "pow2 e = 2 ^ nat e"
    using pow2_nat [of "nat e"] by simp
  then show ?thesis by simp
qed

lemma pow2_mono: "a \<le> b \<Longrightarrow> pow2 a \<le> pow2 b"
  by (simp add: pow2_def)

lemma pow2_strict_mono: "a < b \<Longrightarrow> pow2 a < pow2 b"
  by (simp add: pow2_def)

lemma pow2_less_iff [simp]: "pow2 a < pow2 b \<longleftrightarrow> a < b"
  by (simp add: pow2_def)

lemma pow2_zero [simp]: "pow2 0 = 1"
  by (simp add: pow2_def)

lemma floor_log2_bounds:
  assumes "0 < x"
  shows "pow2 \<lfloor>log 2 x\<rfloor> \<le> x" and "x < pow2 (\<lfloor>log 2 x\<rfloor> + 1)"
proof -
  have "2 powr (of_int \<lfloor>log 2 x\<rfloor>) \<le> x \<and> x < 2 powr (of_int (\<lfloor>log 2 x\<rfloor> + 1))"
    using floor_log_eq_powr_iff [of x 2 "\<lfloor>log 2 x\<rfloor>"] assms by simp
  then show "pow2 \<lfloor>log 2 x\<rfloor> \<le> x" and "x < pow2 (\<lfloor>log 2 x\<rfloor> + 1)"
    by (simp_all add: pow2_def)
qed

lemma floor_log2_eq:
  assumes "0 < x" "pow2 k \<le> x" "x < pow2 (k + 1)"
  shows "\<lfloor>log 2 x\<rfloor> = k"
  using floor_log_eq_powr_iff [of x 2 k] assms by (simp add: pow2_def)

lemma floor_log2_less:
  assumes "0 < x" "x < pow2 k"
  shows "\<lfloor>log 2 x\<rfloor> < k"
proof (rule ccontr)
  assume "\<not> \<lfloor>log 2 x\<rfloor> < k"
  then have "pow2 k \<le> pow2 \<lfloor>log 2 x\<rfloor>"
    by (simp add: pow2_mono)
  then show False
    using floor_log2_bounds(1) [OF assms(1)] assms(2) by linarith
qed

lemma floor_log2_mono:
  assumes "0 < x" "x \<le> y"
  shows "\<lfloor>log 2 x\<rfloor> \<le> \<lfloor>log 2 y\<rfloor>"
  using assms by (intro floor_mono log_mono) simp_all

lemma f64_exponent_ge: "- 1074 \<le> f64_exponent x"
  by (simp add: f64_exponent_def)

lemma f64_exponent_mono:
  assumes "x \<noteq> 0" "\<bar>x\<bar> \<le> \<bar>b\<bar>"
  shows "f64_exponent x \<le> f64_exponent b"
proof -
  have "\<lfloor>log 2 \<bar>x\<bar>\<rfloor> \<le> \<lfloor>log 2 \<bar>b\<bar>\<rfloor>"
    using assms by (intro floor_log2_mono) simp_all
  then show ?thesis
    by (simp add: f64_exponent_def)
qed

lemma round_half_even_le: "q \<le> of_int n \<Longrightarrow> round_half_even q \<le> n"
proof -
  assume q: "q \<le> of_int n"
  then have f: "\<lfloor>q\<rfloor> \<le> n" by (simp add: floor_le_iff) 
  show ?thesis
  proof (cases "\<lfloor>q\<rfloor> = n")
    case True
    then have "q = of_int n" using q by (metis floor_eq_iff order_antisym)
    then show ?thesis by (simp add: round_half_even_def)
  next
    case False
    then have "\<lfloor>q\<rfloor> + 1 \<le> n" using f by simp
    then show ?thesis by (simp add: round_half_even_def Let_def)
  qed
qed

lemma round_half_even_ge: "of_int n \<le> q \<Longrightarrow> n \<le> round_half_even q"
proof -
  assume "of_int n \<le> q"
  then have "n \<le> \<lfloor>q\<rfloor>" by (simp add: le_floor_iff)
  then show ?thesis by (simp add: round_half_even_def Let_def)
qed

lemma round_half_even_int [simp]: "round_half_even (of_int n) = n"
  by (simp add: round_half_even_def)

lemma round_half_even_nearest:
  assumes "of_int n - 1/2 < q" "q < of_int n + 1/2"
  shows "round_half_even q = n"
proof (cases "of_int n \<le> q")
  case True
  then have "\<lfloor>q\<rfloor> = n" using assms by (intro floor_unique) simp_all
  then show ?thesis using assms by (simp add: round_half_even_def)
next
  case False
  then have "\<lfloor>q\<rfloor> = n - 1" using assms by (intro floor_unique) simp_all
  then show ?thesis using assms by (simp add: round_half_even_def)
qed


lemma huge_gt_one: "(1::real) < 2 ^ 1024"
  by simp

lemma float64_on_finer_grid:
  assumes "is_float64 b" "b \<noteq> 0" "e \<le> f64_exponent b"
  shows "b / pow2 e \<in> \<int>"
proof -
  have eq: "b / pow2 e = (b / pow2 (f64_exponent b)) * pow2 (f64_exponent b - e)"
    by (simp add: pow2_diff)
  have "pow2 (f64_exponent b - e) \<in> \<int>"
    using assms(3) by (intro pow2_Ints) simp
  moreover have "b / pow2 (f64_exponent b) \<in> \<int>"
    using assms by (simp add: is_float64_def)
  ultimately have "(b / pow2 (f64_exponent b)) * pow2 (f64_exponent b - e) \<in> \<int>"
    by (rule Ints_mult [rotated])
  then show ?thesis by (simp only: eq)
qed

lemma round64_float:
  assumes "is_float64 b"
  shows "round64 b = Fin b"
proof (cases "b = 0")
  case True
  then show ?thesis by (simp add: round64_def)
next
  case False
  then obtain n where n: "b / pow2 (f64_exponent b) = of_int n"
    using assms by (auto simp: is_float64_def elim: Ints_cases)
  have "of_int n * pow2 (f64_exponent b) = b"
    using n by (simp add: field_simps)
  moreover have "\<bar>b\<bar> < 2 ^ 1024"
    using assms False by (simp add: is_float64_def)
  ultimately show ?thesis
    using False by (simp add: round64_def n Let_def)
qed

lemma round64_below_float:
  assumes "0 \<le> x" "x \<le> b" "is_float64 b"
  shows "\<exists>y. round64 x = Fin y \<and> 0 \<le> y \<and> y \<le> b"
proof (cases "x = 0")
  case True
  then show ?thesis using assms by (simp add: round64_def)
next
  case False
  then have x: "0 < x" and b: "0 < b" "b \<noteq> 0" using assms by simp_all
  let ?u = "pow2 (f64_exponent x)"
  have "f64_exponent x \<le> f64_exponent b"
    using False assms by (intro f64_exponent_mono) simp_all
  then obtain n where n: "b / ?u = of_int n"
    using float64_on_finer_grid [OF assms(3) b(2)] by (auto elim: Ints_cases)
  have "x / ?u \<le> of_int n"
    using assms(2) by (simp add: divide_right_mono flip: n)
  then have hi: "round_half_even (x / ?u) \<le> n"
    by (rule round_half_even_le)
  have "of_int 0 \<le> x / ?u" using x by simp
  then have lo: "0 \<le> round_half_even (x / ?u)"
    by (rule round_half_even_ge)
  let ?y = "of_int (round_half_even (x / ?u)) * ?u"
  have y0: "0 \<le> ?y" using lo by simp
  have "?y \<le> of_int n * ?u"
    using hi by (simp add: mult_right_mono)
  also have "\<dots> = b" using n by (simp add: field_simps)
  finally have yb: "?y \<le> b" .
  have "\<bar>b\<bar> < 2 ^ 1024" using assms(3) b by (simp add: is_float64_def)
  then have "\<not> 2 ^ 1024 \<le> \<bar>?y\<bar>" using y0 yb by linarith
  then show ?thesis
    using False y0 yb by (simp add: round64_def Let_def)
qed

lemma round64_above_float:
  assumes "x \<le> 0" "- b \<le> x" "is_float64 b"
  shows "\<exists>y. round64 x = Fin y \<and> - b \<le> y \<and> y \<le> 0"
proof (cases "x = 0")
  case True
  then show ?thesis using assms by (simp add: round64_def)
next
  case False
  then have x: "x < 0" and b: "0 < b" "b \<noteq> 0" using assms by simp_all
  let ?u = "pow2 (f64_exponent x)"
  have "f64_exponent x \<le> f64_exponent b"
    using False assms by (intro f64_exponent_mono) simp_all
  then obtain n where n: "b / ?u = of_int n"
    using float64_on_finer_grid [OF assms(3) b(2)] by (auto elim: Ints_cases)
  have "- (b / ?u) \<le> x / ?u"
    using assms(2) by (simp add: field_simps)
  then have "of_int (- n) \<le> x / ?u"
    using n by simp
  then have lo: "- n \<le> round_half_even (x / ?u)"
    by (rule round_half_even_ge)
  have "x / ?u \<le> of_int 0" using x by (simp add: field_simps)
  then have hi: "round_half_even (x / ?u) \<le> 0"
    by (rule round_half_even_le)
  let ?y = "of_int (round_half_even (x / ?u)) * ?u"
  have y0: "?y \<le> 0" using hi by (simp add: mult_le_0_iff)
  have "of_int (- n) * ?u \<le> ?y"
    using lo by (intro mult_right_mono) simp_all
  moreover have "of_int (- n) * ?u = - b" using n by (simp add: field_simps)
  ultimately have yb: "- b \<le> ?y" by simp
  have "\<bar>b\<bar> < 2 ^ 1024" using assms(3) b by (simp add: is_float64_def)
  then have "\<not> 2 ^ 1024 \<le> \<bar>?y\<bar>" using y0 yb by linarith
  then show ?thesis
    using False y0 yb by (simp add: round64_def Let_def)
qed

lemma round64_nonneg:
  assumes "0 \<le> x"
  shows "round64 x = PInf \<or> (\<exists>y. round64 x = Fin y \<and> 0 \<le> y)"
proof (cases "x = 0")
  case True
  then show ?thesis by (simp add: round64_def)
next
  case False
  then have "of_int 0 \<le> x / pow2 (f64_exponent x)" using assms by simp
  then have "0 \<le> round_half_even (x / pow2 (f64_exponent x))"
    by (rule round_half_even_ge)
  then show ?thesis
    using False assms by (simp add: round64_def Let_def signed_inf_def)
qed


lemma pow2_minus: "pow2 (- e) = 1 / pow2 e"
  using pow2_diff [of 0 e] by simp

lemma pow2_numeral [simp]: "pow2 (numeral k) = 2 ^ numeral k"
  using pow2_nat [of "numeral k"] by simp

lemma pow2_neg_numeral [simp]: "pow2 (- numeral k) = 1 / 2 ^ numeral k"
  by (simp add: pow2_minus)

lemma pow2_minus_one [simp]: "pow2 (- 1) = 1 / 2"
  using pow2_minus [of 1] pow2_nat [of 1] by simp

lemma is_float64_multiple:
  assumes x: "x = of_int n * pow2 e"
      and e: "- 1074 \<le> e"
      and n: "\<bar>n\<bar> < 2 ^ 53"
      and h: "\<bar>x\<bar> < 2 ^ 1024"
  shows "is_float64 x"
proof (cases "x = 0")
  case True
  then show ?thesis by (simp add: is_float64_def)
next
  case False
  have "\<bar>x\<bar> = of_int \<bar>n\<bar> * pow2 e"
    by (simp add: x abs_mult)
  also have "\<dots> < 2 ^ 53 * pow2 e"
  proof -
    have "(of_int \<bar>n\<bar> :: real) < of_int (2 ^ 53)"
      using n by (simp only: of_int_less_iff)
    then show ?thesis by simp
  qed
  also have "\<dots> = pow2 (e + 53)"
    by (simp add: pow2_add)
  finally have "\<lfloor>log 2 \<bar>x\<bar>\<rfloor> < e + 53"
    using False by (intro floor_log2_less) simp_all
  then have le: "f64_exponent x \<le> e"
    using e by (simp add: f64_exponent_def)
  have "x / pow2 (f64_exponent x) = of_int n * pow2 (e - f64_exponent x)"
    by (simp add: x pow2_diff)
  moreover have "pow2 (e - f64_exponent x) \<in> \<int>"
    using le by (intro pow2_Ints) simp
  ultimately have "x / pow2 (f64_exponent x) \<in> \<int>"
    by simp
  then show ?thesis
    using h by (simp add: is_float64_def)
qed

lemma is_float64_one: "is_float64 1"
  by (rule is_float64_multiple [of 1 1 0]) simp_all

lemma round64_one: "round64 1 = Fin 1"
  using is_float64_one by (rule round64_float)

lemma round64_zero [simp]: "round64 0 = Fin 0"
  by (simp add: round64_def)

lemma round64_is_float:
  assumes x: "0 < x" and r: "round64 x = Fin r"
  shows "is_float64 r"
proof -
  define e where "e = f64_exponent x"
  define n where "n = round_half_even (x / pow2 e)"
  have rn: "r = of_int n * pow2 e" and fin: "\<bar>r\<bar> < 2 ^ 1024"
    using x r by (auto simp: round64_def Let_def e_def n_def signed_inf_def split: if_splits)
  have e1074: "- 1074 \<le> e"
    by (simp add: e_def f64_exponent_ge)
  have "\<lfloor>log 2 x\<rfloor> - 52 \<le> e"
    using x by (simp add: e_def f64_exponent_def)
  then have "pow2 (\<lfloor>log 2 x\<rfloor> + 1) \<le> pow2 (e + 53)"
    by (intro pow2_mono) simp
  then have "x < pow2 (e + 53)"
    using floor_log2_bounds(2) [OF x] by linarith
  then have "x / pow2 e < 2 ^ 53"
    by (simp add: pow2_add field_simps)
  then have "x / pow2 e \<le> of_int (2 ^ 53)"
    by simp
  then have hi: "n \<le> 2 ^ 53"
    unfolding n_def by (rule round_half_even_le)
  have "of_int 0 \<le> x / pow2 e" using x by simp
  then have lo: "0 \<le> n"
    unfolding n_def by (rule round_half_even_ge)
  show ?thesis
  proof (cases "n = 2 ^ 53")
    case False
    then have "\<bar>n\<bar> < 2 ^ 53" using hi lo by simp
    then show ?thesis
      using rn e1074 fin by (intro is_float64_multiple [of r n e]) simp_all
  next
    case True
    then have r53: "r = pow2 (e + 53)"
      by (simp add: rn pow2_add)
    have "r = of_int 1 * pow2 (e + 53)"
      by (simp add: r53)
    then show ?thesis
      using e1074 fin by (intro is_float64_multiple [of r 1 "e + 53"]) simp_all
  qed
qed

lemma round64_eval:
  assumes "x \<noteq> 0" "f64_exponent x = e" "round_half_even (x / pow2 e) = n"
    "\<bar>of_int n * pow2 e\<bar> < 2 ^ 1024"
  shows "round64 x = Fin (of_int n * pow2 e)"
  using assms by (simp add: round64_def Let_def)

text \<open>A value just below 1 in magnitude rounds to 1: halving has gone too far to register.\<close>

lemma round64_near_minus_one: "round64 (1 / 2 ^ 70 - 1) = Fin (- 1)"
proof -
  define x :: real where "x = 1 / 2 ^ 70 - 1"
  have ax: "\<bar>x\<bar> = 1 - 1 / 2 ^ 70" and x0: "x \<noteq> 0"
    by (simp_all add: x_def)
  have "\<lfloor>log 2 \<bar>x\<bar>\<rfloor> = - 1"
    unfolding ax by (rule floor_log2_eq) simp_all
  then have e: "f64_exponent x = - 53"
    by (simp add: f64_exponent_def)
  have q: "x / pow2 (- 53) = 1 / 2 ^ 17 - 2 ^ 53"
    by (simp add: x_def)
  have n: "round_half_even (x / pow2 (- 53)) = - (2 ^ 53)"
    unfolding q by (rule round_half_even_nearest) simp_all
  have "round64 x = Fin (of_int (- (2 ^ 53)) * pow2 (- 53))"
    using x0 e n by (rule round64_eval) simp
  then show ?thesis
    by (simp add: x_def)
qed

lemma round64_minus_one: "round64 (- 1) = Fin (- 1)"
  by (rule round64_float, rule is_float64_multiple [of "- 1" "- 1" 0]) simp_all

lemma round64_small: "round64 (1 / 2 ^ 70) = Fin (1 / 2 ^ 70)"
  by (rule round64_float, rule is_float64_multiple [of _ 1 "- 70"]) simp_all

lemma is_float64_half:
  assumes "\<bar>n\<bar> < 2 ^ 52"
  shows "is_float64 (of_int n / 2)"
proof (rule is_float64_multiple [of _ n "- 1"])
  show "of_int n / 2 = of_int n * pow2 (- 1)" by simp
  show "\<bar>n\<bar> < 2 ^ 53" using assms by simp
  have "\<bar>real_of_int n\<bar> < 2 ^ 52"
    using assms by (metis of_int_abs of_int_less_numeral_power_cancel_iff)
  then show "\<bar>real_of_int n / 2\<bar> < 2 ^ 1024" by simp
qed simp

lemma round64_small_halves:
  "round64 (3 / 2) = Fin (3 / 2)" "round64 2 = Fin 2" "round64 3 = Fin 3"
  using round64_float [OF is_float64_half [of 3]] round64_float [OF is_float64_half [of 4]]
    round64_float [OF is_float64_half [of 6]]
  by simp_all

text \<open>
  Between \<open>2^53\<close> and \<open>2^54\<close> the float64 values are the even whole numbers; an odd whole
  number there is a tie, rounded to the neighbour whose half is even.
\<close>

lemma round64_tie:
  assumes "2 ^ 52 \<le> n" "n < 2 ^ 53 - 1"
  shows "round64 (of_int (2 * n + 1)) = Fin (of_int (if even n then 2 * n else 2 * n + 2))"
proof -
  define x :: real where "x = of_int (2 * n + 1)"
  have "(2 ^ 53 :: int) \<le> 2 * n + 1" "2 * n + 1 < (2 ^ 54 :: int)"
    using assms by simp_all
  then have b: "2 ^ 53 \<le> x" "x < 2 ^ 54"
    unfolding x_def by (metis of_int_le_iff of_int_numeral of_int_power, metis of_int_less_iff of_int_numeral of_int_power)
  then have pos: "0 < x" by simp
  have "\<lfloor>log 2 x\<rfloor> = 53"
    using pos b by (intro floor_log2_eq) simp_all
  then have e: "f64_exponent x = 1"
    using pos by (simp add: f64_exponent_def)
  have q: "x / pow2 1 = of_int n + 1 / 2"
    by (simp add: x_def pow2_def)
  have f: "\<lfloor>of_int n + (1 / 2 :: real)\<rfloor> = n"
    by linarith
  have r: "round_half_even (x / pow2 1) = (if even n then n else n + 1)"
    unfolding q by (simp add: round_half_even_def f Let_def)
  have "\<bar>of_int (if even n then n else n + 1) * pow2 1\<bar> < (2 ^ 1024 :: real)"
  proof -
    have "(if even n then n else n + 1) < 2 ^ 53" "0 \<le> (if even n then n else n + 1)"
      using assms by auto
    then have "real_of_int (if even n then n else n + 1) < 2 ^ 53" "0 \<le> real_of_int (if even n then n else n + 1)"
      by (metis of_int_less_iff of_int_numeral of_int_power, simp)
    then show ?thesis by (simp add: pow2_def)
  qed
  then have "round64 x = Fin (of_int (if even n then n else n + 1) * pow2 1)"
    using round64_eval [OF _ e r] pos by simp
  then show ?thesis
    by (simp add: x_def pow2_def)
qed

lemma round64_even:
  assumes "0 < n" "n < 2 ^ 53"
  shows "round64 (of_int (2 * n)) = Fin (of_int (2 * n))"
proof (rule round64_float, rule is_float64_multiple [of _ n 1])
  show "real_of_int (2 * n) = real_of_int n * pow2 1" by (simp add: pow2_def)
  show "\<bar>n\<bar> < 2 ^ 53" using assms by simp
  have "real_of_int n < 2 ^ 53" "0 < real_of_int n"
    using assms by (metis of_int_less_iff of_int_numeral of_int_power, simp)
  then show "\<bar>real_of_int (2 * n)\<bar> < 2 ^ 1024" by simp
qed simp

section \<open>Properties of the metrics\<close>

lemma fl_abs_neg [simp]: "fl_abs (fl_neg x) = fl_abs x"
  by (cases x) simp_all

lemma fl_eq_neg_zero [simp]: "fl_eq (fl_neg d) (Fin 0) = fl_eq d (Fin 0)"
  by (cases d) (simp_all add: fl_eq_def)

lemma fl_neg_eq_NaN [simp]: "(fl_neg d = NaN) = (d = NaN)"
  by (cases d) simp_all

lemma calmar_defined:
  "c \<noteq> NaN \<Longrightarrow> d \<noteq> NaN \<Longrightarrow> d \<noteq> Fin 0 \<Longrightarrow>
   calculate_calmar (Some c) (Some d) = fl_div c (fl_abs d)"
  by (simp add: calculate_calmar_def fl_eq_def Let_def)

text \<open>
  Claim C10. For every defined CAGR \<open>c\<close> and every defined, nonzero drawdown \<open>d\<close>, the
  Calmar ratio of \<open>(c, d)\<close> equals that of \<open>(c, -d)\<close>, and both are \<open>c / |d|\<close>.
\<close>

theorem calmar_sign_invariant:
  assumes "c \<noteq> NaN" and "d \<noteq> NaN" and "d \<noteq> Fin 0"
  shows "calculate_calmar (Some c) (Some d) = calculate_calmar (Some c) (Some (fl_neg d))
       \<and> calculate_calmar (Some c) (Some d) = fl_div c (fl_abs d)"
proof -
  have nd: "fl_neg d \<noteq> NaN" "fl_neg d \<noteq> Fin 0"
    using assms by (cases d; simp)+
  have a: "calculate_calmar (Some c) (Some d) = fl_div c (fl_abs d)"
    using assms by (rule calmar_defined)
  have b: "calculate_calmar (Some c) (Some (fl_neg d)) = fl_div c (fl_abs d)"
    using calmar_defined [OF assms(1) nd] by simp
  show ?thesis using a b by simp
qed

theorem calmar_sign_invariant_witness:
  "calculate_calmar (Some (Fin (1/10))) (Some (Fin (-(1/5))))
     = calculate_calmar (Some (Fin (1/10))) (Some (Fin (1/5)))
 \<and> calculate_calmar (Some (Fin (1/10))) (Some (Fin (-(1/5)))) = Fin (1/2)"
proof -
  have h: "Fin (1/10) \<noteq> NaN" "Fin (-(1/5)) \<noteq> NaN" "Fin (-(1/5)) \<noteq> Fin 0"
    by simp_all
  have e: "fl_neg (Fin (-(1/5))) = Fin (1/5)"
    by simp
  have f: "fl_div (Fin (1/10)) (fl_abs (Fin (-(1/5)))) = Fin (1/2)"
    by simp
  show ?thesis
    using calmar_sign_invariant [OF h] unfolding e f .
qed

subsection \<open>Maximum drawdown and Sortino ratio\<close>

lemma dropna_Fin [simp]: "dropna (map Fin vs) = map Fin vs"
  by (induction vs) (simp_all add: dropna_def)

lemma fl_min_list_Fin:
  "xs \<noteq> [] \<Longrightarrow> \<forall>x\<in>set xs. \<exists>m. x = Fin m \<Longrightarrow> fl_min_list xs \<in> set xs"
proof (induction xs)
  case Nil
  then show ?case by simp
next
  case (Cons x xs)
  show ?case
  proof (cases "xs = []")
    case True
    with Cons.prems show ?thesis by (auto simp: Let_def)
  next
    case False
    with Cons show ?thesis by (auto simp: Let_def)
  qed
qed

lemma series_min_mem:
  assumes "xs \<noteq> []" and "\<forall>x\<in>set xs. \<exists>m. x = Fin m"
  shows "series_min xs \<in> set xs"
proof -
  have "dropna xs = xs"
    using assms(2) by (auto simp: dropna_def filter_id_conv)
  then show ?thesis
    using fl_min_list_Fin [OF assms] assms(1) by (simp add: series_min_def)
qed

lemma series_min_range:
  assumes rows: "\<forall>x\<in>set xs. x = NaN \<or> (\<exists>m. x = Fin m \<and> P m)"
      and some: "\<exists>x\<in>set xs. x \<noteq> NaN"
  shows "\<exists>m. series_min xs = Fin m \<and> P m"
proof -
  have fin: "\<forall>x\<in>set (dropna xs). \<exists>m. x = Fin m \<and> P m"
    using rows by (auto simp: dropna_def)
  have ne: "dropna xs \<noteq> []"
    using some by (auto simp: dropna_def filter_empty_conv)
  have "\<forall>x\<in>set (dropna xs). \<exists>m. x = Fin m"
    using fin by blast
  then have "fl_min_list (dropna xs) \<in> set (dropna xs)"
    using ne by (intro fl_min_list_Fin)
  then show ?thesis
    using fin ne by (simp add: series_min_def)
qed

lemma f64_sub_Fin [simp]: "f64_sub (Fin a) (Fin b) = round64 (a - b)"
  by (simp add: f64_sub_def fl_sub_def)

lemma f64_div_Fin [simp]: "b \<noteq> 0 \<Longrightarrow> f64_div (Fin a) (Fin b) = round64 (a / b)"
  by (simp add: f64_div_def)

lemma normalised_value:
  assumes "0 < v" "0 < v0"
  shows "f64_div (Fin v) (Fin v0) = PInf
       \<or> (\<exists>c. f64_div (Fin v) (Fin v0) = Fin c \<and> 0 \<le> c \<and> is_float64 c)"
proof -
  have q: "0 < v / v0" using assms by simp
  then have "round64 (v / v0) = PInf \<or> (\<exists>y. round64 (v / v0) = Fin y \<and> 0 \<le> y)"
    by (intro round64_nonneg) simp
  then show ?thesis
    using assms round64_is_float [OF q] by auto
qed

lemma drawdown_row:
  assumes r: "is_float64 r" "1 \<le> r" and c: "0 \<le> c" "c \<le> r"
  shows "\<exists>m. f64_div (f64_sub (Fin c) (Fin r)) (Fin r) = Fin m \<and> - 1 \<le> m \<and> m \<le> 0"
proof -
  obtain d where d: "round64 (c - r) = Fin d" "- r \<le> d" "d \<le> 0"
    using round64_above_float [of "c - r" r] r c by auto
  have "d / r \<le> 0" "- 1 \<le> d / r"
    using d r by (simp_all add: field_simps)
  then obtain m where m: "round64 (d / r) = Fin m" "- 1 \<le> m" "m \<le> 0"
    using round64_above_float [of "d / r" 1] is_float64_one by auto
  have "f64_div (f64_sub (Fin c) (Fin r)) (Fin r) = Fin m"
    using r d m by simp
  then show ?thesis using m by simp
qed

lemma drawdown_row_unbounded:
  assumes "c = PInf \<or> (\<exists>y. c = Fin y)"
  shows "f64_div (f64_sub c PInf) PInf = NaN"
  using assms by (auto simp: f64_div_def f64_sub_def fl_sub_def)

lemma drawdown_rows:
  assumes "acc = PInf \<or> (\<exists>r. acc = Fin r \<and> 1 \<le> r \<and> is_float64 r)"
      and "\<forall>c\<in>set cs. c = PInf \<or> (\<exists>y. c = Fin y \<and> 0 \<le> y \<and> is_float64 y)"
  shows "\<forall>x\<in>set (map2 (\<lambda>c r. f64_div (f64_sub c r) r) cs (cummax_from acc cs)).
           x = NaN \<or> (\<exists>m. x = Fin m \<and> - 1 \<le> m \<and> m \<le> 0)"
  using assms
proof (induction cs arbitrary: acc)
  case Nil
  then show ?case by simp
next
  case (Cons c cs)
  define m where "m = (if fl_lt acc c then c else acc)"
  have c: "c = PInf \<or> (\<exists>y. c = Fin y \<and> 0 \<le> y \<and> is_float64 y)"
    using Cons.prems(2) by simp
  then have cn: "c \<noteq> NaN" by auto
  have step: "cummax_from acc (c # cs) = m # cummax_from m cs"
    using cn by (simp add: Let_def m_def)
  have m: "m = PInf \<or> (\<exists>r. m = Fin r \<and> 1 \<le> r \<and> is_float64 r)"
    using Cons.prems(1) c by (auto simp: m_def)
  have row: "f64_div (f64_sub c m) m = NaN
           \<or> (\<exists>x. f64_div (f64_sub c m) m = Fin x \<and> - 1 \<le> x \<and> x \<le> 0)"
  proof (cases "m = PInf")
    case True
    have "c = PInf \<or> (\<exists>y. c = Fin y)" using c by auto
    then have "f64_div (f64_sub c PInf) PInf = NaN"
      by (rule drawdown_row_unbounded)
    then show ?thesis by (simp only: True) simp
  next
    case False
    then obtain r where r: "m = Fin r" "1 \<le> r" "is_float64 r"
      using m by auto
    have "c \<noteq> PInf"
      using False Cons.prems(1) by (auto simp: m_def split: if_splits)
    then obtain y where y: "c = Fin y" "0 \<le> y"
      using c by auto
    have "y \<le> r"
      using r(1) y(1) Cons.prems(1) by (auto simp: m_def split: if_splits)
    then have "\<exists>x. f64_div (f64_sub (Fin y) (Fin r)) (Fin r) = Fin x \<and> - 1 \<le> x \<and> x \<le> 0"
      using r y by (intro drawdown_row) simp_all
    then show ?thesis unfolding r(1) y(1) by blast
  qed
  have rest: "\<forall>x\<in>set (map2 (\<lambda>c r. f64_div (f64_sub c r) r) cs (cummax_from m cs)).
           x = NaN \<or> (\<exists>m. x = Fin m \<and> - 1 \<le> m \<and> m \<le> 0)"
    using Cons.prems(2) by (intro Cons.IH [OF m]) simp
  show ?case
    unfolding step using row rest by simp
qed

lemma max_drawdown_unfold:
  "2 \<le> length pv \<Longrightarrow> dropna pv = pv \<Longrightarrow> \<not> list_ex (\<lambda>v. fl_le v (Fin 0)) pv \<Longrightarrow>
   calculate_max_drawdown (Some pv) =
     series_min (map2 (\<lambda>c r. f64_div (f64_sub c r) r)
       (map (\<lambda>v. f64_div v (hd pv)) pv) (cummax (map (\<lambda>v. f64_div v (hd pv)) pv)))"
  by (simp add: calculate_max_drawdown_def Let_def)

lemma max_drawdown_positive:
  assumes len: "2 \<le> length vs" and pos: "\<forall>v\<in>set vs. 0 < v"
  shows "\<exists>m. calculate_max_drawdown (Some (map Fin vs)) = Fin m \<and> - 1 \<le> m \<and> m \<le> 0"
proof -
  obtain v0 rest where vs: "vs = v0 # rest"
    using len by (cases vs) auto
  have v0: "0 < v0" using pos vs by simp
  define cs where "cs = map (\<lambda>v. f64_div (Fin v) (Fin v0)) rest"
  define rows where
    "rows = map2 (\<lambda>c r. f64_div (f64_sub c r) r) cs (cummax_from (Fin 1) cs)"
  have cr: "map (\<lambda>v. f64_div v (hd (map Fin vs))) (map Fin vs) = Fin 1 # cs"
    using v0 by (simp add: vs cs_def round64_one comp_def)
  have cm: "cummax (Fin 1 # cs) = Fin 1 # cummax_from (Fin 1) cs"
    by (simp add: cummax_def Let_def)
  have first: "f64_div (f64_sub (Fin 1) (Fin 1)) (Fin 1) = Fin 0"
    by simp
  have all: "map2 (\<lambda>c r. f64_div (f64_sub c r) r) (Fin 1 # cs) (cummax (Fin 1 # cs))
           = Fin 0 # rows"
    unfolding cm rows_def using first by simp
  have csok: "\<forall>c\<in>set cs. c = PInf \<or> (\<exists>y. c = Fin y \<and> 0 \<le> y \<and> is_float64 y)"
    using pos v0 normalised_value by (auto simp: cs_def vs)
  have "\<forall>x\<in>set rows. x = NaN \<or> (\<exists>m. x = Fin m \<and> - 1 \<le> m \<and> m \<le> 0)"
    unfolding rows_def using csok is_float64_one by (intro drawdown_rows) simp_all
  then have range: "\<forall>x\<in>set (Fin 0 # rows). x = NaN \<or> (\<exists>m. x = Fin m \<and> - 1 \<le> m \<and> m \<le> 0)"
    by simp
  have "\<exists>x\<in>set (Fin 0 # rows). x \<noteq> NaN"
    by simp
  with range have min: "\<exists>m. series_min (Fin 0 # rows) = Fin m \<and> - 1 \<le> m \<and> m \<le> 0"
    by (rule series_min_range)
  have noneg: "\<not> list_ex (\<lambda>v. fl_le v (Fin 0)) (map Fin vs)"
    using pos by (auto simp: list_ex_iff fl_le_def fl_eq_def)
  have "2 \<le> length (map Fin vs)" "dropna (map Fin vs) = map Fin vs"
    using len by simp_all
  from max_drawdown_unfold [OF this noneg]
  have "calculate_max_drawdown (Some (map Fin vs)) = series_min (Fin 0 # rows)"
    by (simp only: cr all)
  then show ?thesis using min by simp
qed

lemma max_drawdown_undefined:
  assumes "length pv < 2 \<or> (\<exists>v\<in>set pv. fl_le v (Fin 0))"
  shows "calculate_max_drawdown (Some pv) = NaN"
proof (cases "length pv < 2")
  case True
  then show ?thesis by (simp add: calculate_max_drawdown_def)
next
  case False
  then obtain v where v: "v \<in> set pv" "fl_le v (Fin 0)"
    using assms by blast
  then have "v \<noteq> NaN" by (auto simp: fl_le_def fl_eq_def)
  then have "v \<in> set (dropna pv)" using v by (simp add: dropna_def)
  then have "list_ex (\<lambda>v. fl_le v (Fin 0)) (dropna pv)"
    using v by (auto simp: list_ex_iff)
  then show ?thesis by (simp add: calculate_max_drawdown_def Let_def)
qed

text \<open>
  An equity curve that falls from 1 to \<open>2^(-70)\<close> has drawdown exactly \<open>-1\<close>: the
  difference \<open>2^(-70) - 1\<close> rounds to \<open>-1\<close>. A curve that starts at plus infinity, a
  strictly positive value, has no defined drawdown.
\<close>

theorem max_drawdown_minus_one_counterexample:
  "calculate_max_drawdown (Some [Fin 1, Fin (1 / 2 ^ 70)]) = Fin (- 1)
 \<and> calculate_max_drawdown (Some [PInf, Fin 1]) = NaN"
proof -
  define x :: real where "x = 1 / 2 ^ 70"
  have x: "0 < x" "x < 1" "round64 x = Fin x" "round64 (x - 1) = Fin (- 1)"
    using round64_small round64_near_minus_one by (simp_all add: x_def)
  have rows: "map2 (\<lambda>c r. f64_div (f64_sub c r) r)
                (map (\<lambda>v. f64_div v (hd [Fin 1, Fin x])) [Fin 1, Fin x])
                (cummax (map (\<lambda>v. f64_div v (hd [Fin 1, Fin x])) [Fin 1, Fin x]))
              = [Fin 0, Fin (- 1)]"
    using x by (simp add: round64_one round64_minus_one cummax_def Let_def)
  have "calculate_max_drawdown (Some [Fin 1, Fin x]) = series_min [Fin 0, Fin (- 1)]"
    using x(1) unfolding rows [symmetric]
    by (intro max_drawdown_unfold) (simp_all add: dropna_def fl_le_def fl_eq_def)
  then have a: "calculate_max_drawdown (Some [Fin 1, Fin x]) = Fin (- 1)"
    by (simp add: series_min_def dropna_def)
  have b: "calculate_max_drawdown (Some [PInf, Fin 1]) = NaN"
    by (simp add: calculate_max_drawdown_def dropna_def fl_le_def fl_eq_def f64_div_def
        f64_sub_def fl_sub_def cummax_def series_min_def Let_def)
  show ?thesis
    using a b by (simp only: x_def)
qed

text \<open>
  Claim C8 (amended). For an equity curve of at least two strictly positive finite
  values the maximum drawdown is a number \<open>m\<close> with \<open>-1 \<le> m \<le> 0\<close>; for a curve with
  fewer than two points or containing a value \<open>\<le> 0\<close> the result is the NaN sentinel.
\<close>

theorem max_drawdown_range:
  "(2 \<le> length vs \<and> (\<forall>v\<in>set vs. 0 < v) \<longrightarrow>
      (\<exists>m. calculate_max_drawdown (Some (map Fin vs)) = Fin m \<and> - 1 \<le> m \<and> m \<le> 0))
 \<and> (length pv < 2 \<or> (\<exists>v\<in>set pv. fl_le v (Fin 0)) \<longrightarrow>
      calculate_max_drawdown (Some pv) = NaN)"
  using max_drawdown_positive [of vs] max_drawdown_undefined [of pv] by blast

theorem max_drawdown_range_witness:
  "2 \<le> length [100, 120, 90 :: real]
 \<and> (\<exists>m. calculate_max_drawdown (Some (map Fin [100, 120, 90])) = Fin m \<and> - 1 \<le> m \<and> m \<le> 0)
 \<and> (\<exists>v\<in>set [Fin 100, Fin 0]. fl_le v (Fin 0))
 \<and> calculate_max_drawdown (Some [Fin 100, Fin 0]) = NaN"
  using max_drawdown_range [of "[100, 120, 90]" "[Fin 100, Fin 0]"]
  by (simp add: fl_le_def fl_eq_def)

lemma dropna_length_le: "length (dropna xs) \<le> length xs"
  by (simp add: dropna_def)

lemma negative_excess_no_NaN: "dropna (negative_excess_returns ex) = negative_excess_returns ex"
  by (auto simp: dropna_def negative_excess_returns_def intro: filter_cong)

lemma series_std_single: "length (dropna xs) = 1 \<Longrightarrow> series_std xs = NaN"
  by (simp add: series_std_def Let_def)

text \<open>
  A series with exactly one negative excess return has negative excess returns and a
  downside deviation that is not zero (it is NaN, the sample deviation of one value),
  and the result is not the annualised quotient: the code's \<^verbatim>\<open>pd.isna\<close> test sends it
  to the infinity branch.
\<close>

theorem sortino_single_negative_counterexample:
  "negative_excess_returns (excess_returns [Fin (- (1/100)), Fin (5/100)] (Fin 0)) \<noteq> []
 \<and> \<not> fl_eq (series_std (negative_excess_returns
              (excess_returns [Fin (- (1/100)), Fin (5/100)] (Fin 0)))) (Fin 0)
 \<and> calculate_sortino (Some [Fin (- (1/100)), Fin (5/100)]) (Fin 0) \<noteq>
     fl_mul (fl_div (series_mean (excess_returns [Fin (- (1/100)), Fin (5/100)] (Fin 0)))
                    (series_std (negative_excess_returns
                       (excess_returns [Fin (- (1/100)), Fin (5/100)] (Fin 0)))))
            (Fin (sqrt 252))"
  by (simp add: calculate_sortino_def excess_returns_def negative_excess_returns_def dropna_def
      series_std_def series_mean_def fl_sub_def fl_gt_def fl_eq_def Let_def)

text \<open>
  Claim C7 (amended). For a return series with at least two observations that are not
  NaN: the result is mean excess return over downside deviation, times the square root of 252, when
  negative excess returns exist and their sample standard deviation is defined and
  nonzero; when there is no negative excess return, or the downside deviation is zero
  or undefined, the result is plus infinity if the mean excess return is positive and NaN
  otherwise. The deviation is undefined whenever exactly one excess return is negative.
\<close>

theorem sortino_cases:
  assumes "2 \<le> length (dropna rs)"
  shows "(negative_excess_returns (excess_returns rs rf) \<noteq> []
          \<and> series_std (negative_excess_returns (excess_returns rs rf)) \<noteq> NaN
          \<and> series_std (negative_excess_returns (excess_returns rs rf)) \<noteq> Fin 0
        \<longrightarrow> calculate_sortino (Some rs) rf =
              fl_mul (fl_div (series_mean (excess_returns rs rf))
                             (series_std (negative_excess_returns (excess_returns rs rf))))
                     (Fin (sqrt 252)))
       \<and> (negative_excess_returns (excess_returns rs rf) = []
          \<or> series_std (negative_excess_returns (excess_returns rs rf)) = NaN
          \<or> series_std (negative_excess_returns (excess_returns rs rf)) = Fin 0
        \<longrightarrow> calculate_sortino (Some rs) rf =
              (if fl_gt (series_mean (excess_returns rs rf)) (Fin 0) then PInf else NaN))
       \<and> (length (negative_excess_returns (excess_returns rs rf)) = 1
        \<longrightarrow> series_std (negative_excess_returns (excess_returns rs rf)) = NaN)"
proof -
  have len: "\<not> length rs < 2" "\<not> length (dropna rs) < 2"
    using assms dropna_length_le [of rs] by simp_all
  have single: "length (negative_excess_returns (excess_returns rs rf)) = 1
        \<longrightarrow> series_std (negative_excess_returns (excess_returns rs rf)) = NaN"
    using series_std_single [of "negative_excess_returns (excess_returns rs rf)"]
    by (simp add: negative_excess_no_NaN)
  show ?thesis
    using len single by (auto simp: calculate_sortino_def Let_def fl_eq_def)
qed

theorem sortino_cases_witness:
  "2 \<le> length (dropna [Fin (- (3/100)), Fin (- (1/100)), Fin (5/100)])
 \<and> calculate_sortino (Some [Fin (- (3/100)), Fin (- (1/100)), Fin (5/100)]) (Fin 0)
     = fl_mul (fl_div (Fin (1/300)) (Fin (sqrt (1/5000)))) (Fin (sqrt 252))
 \<and> 2 \<le> length (dropna [Fin (- (1/100)), Fin (5/100)])
 \<and> calculate_sortino (Some [Fin (- (1/100)), Fin (5/100)]) (Fin 0) = PInf"
proof -
  have h1: "2 \<le> length (dropna [Fin (- (3/100)), Fin (- (1/100)), Fin (5/100)])"
    by (simp add: dropna_def)
  have h2: "2 \<le> length (dropna [Fin (- (1/100)), Fin (5/100)])"
    by (simp add: dropna_def)
  show ?thesis
    using sortino_cases [OF h1, of "Fin 0"] sortino_cases [OF h2, of "Fin 0"] h1 h2
    by (simp add: excess_returns_def negative_excess_returns_def dropna_def series_std_def
        series_mean_def fl_sub_def fl_gt_def Let_def)
qed

section \<open>Properties of the simulator\<close>

lemma length_fillna [simp]: "length (fillna v xs) = length xs"
  by (simp add: fillna_def)

lemma length_shift [simp]: "length (shift n xs) = length xs"
  by (simp add: shift_def)

lemma length_ffill_from [simp]: "length (ffill_from a xs) = length xs"
  by (induction xs arbitrary: a) simp_all

lemma length_pct_change [simp]: "length (pct_change xs) = length xs"
  by (simp add: pct_change_def ffill_def Let_def)

lemma length_cumprod_from [simp]: "length (cumprod_from a xs) = length xs"
  by (induction xs arbitrary: a) (simp_all add: Let_def)

lemma length_cumprod [simp]: "length (cumprod xs) = length xs"
  by (simp add: cumprod_def)

lemma length_loc_values [simp]: "length (loc_values idx vals labels) = length labels"
  by (simp add: loc_values_def)

lemma shift_one_nth:
  "t < length xs \<Longrightarrow> shift 1 xs ! t = (if t = 0 then NaN else xs ! (t - 1))"
  by (simp add: shift_def nth_Cons')

lemma fillna_nth: "t < length xs \<Longrightarrow> fillna v xs ! t = (if xs ! t = NaN then v else xs ! t)"
  by (simp add: fillna_def)

lemma position_rule_fill [simp]:
  "position_rule sh (if x = NaN then Fin 0 else x) = position_rule sh x"
  by (simp add: position_rule_def fl_gt_def)

lemma position_rule_NaN [simp]: "position_rule sh NaN = Fin 0"
  by (simp add: position_rule_def fl_gt_def)

lemma position_rule_zero [simp]: "position_rule sh (Fin 0) = Fin 0"
  by (simp add: position_rule_def fl_gt_def)

lemma fl_mul_one [simp]: "fl_mul x (Fin 1) = x"
  by (cases x) (simp_all add: signed_inf_def)

lemma first_valid_index_head: "xs \<noteq> [] \<Longrightarrow> hd xs \<noteq> NaN \<Longrightarrow> first_valid_index xs = Some 0"
  by (cases xs) simp_all

lemma rows_from_zero [simp]: "rows_from 0 p = p"
  by (simp add: rows_from_def)

lemma hd_fillna: "xs \<noteq> [] \<Longrightarrow> v \<noteq> NaN \<Longrightarrow> hd (fillna v xs) \<noteq> NaN"
  by (cases xs) (simp_all add: fillna_def)

text \<open>The columns of the portfolio, row by row.\<close>

lemma make_portfolio_fields:
  "p_index (make_portfolio ci pr sg cap sh) = ci"
  "adj_close (make_portfolio ci pr sg cap sh) = pr"
  "signal (make_portfolio ci pr sg cap sh) = sg"
  "position (make_portfolio ci pr sg cap sh) = map (position_rule sh) (fillna (Fin 0) (shift 1 sg))"
  "market_return (make_portfolio ci pr sg cap sh) = fillna (Fin 0) (pct_change pr)"
  "strategy_return (make_portfolio ci pr sg cap sh) =
     fillna (Fin 0) (map2 fl_mul (map (position_rule sh) (fillna (Fin 0) (shift 1 sg)))
                                 (fillna (Fin 0) (pct_change pr)))"
  "equity_curve (make_portfolio ci pr sg cap sh) =
     map (fl_mul cap) (cumprod (map (fl_add (Fin 1)) (strategy_return (make_portfolio ci pr sg cap sh))))"
  by (simp_all add: make_portfolio_def Let_def)

lemma truncate_make_portfolio:
  assumes "ci \<noteq> []" "length pr = length ci" "length sg = length ci"
  shows "truncate_portfolio (make_portfolio ci pr sg cap sh) = Some (make_portfolio ci pr sg cap sh)"
proof -
  let ?p = "make_portfolio ci pr sg cap sh"
  have ne: "map2 fl_mul (map (position_rule sh) (fillna (Fin 0) (shift 1 sg)))
              (fillna (Fin 0) (pct_change pr)) \<noteq> []"
    using assms by (cases ci; cases pr; cases sg) (simp_all add: shift_def fillna_def pct_change_def ffill_def Let_def)
  have "first_valid_index (strategy_return ?p) = Some 0"
    unfolding make_portfolio_fields
  proof (rule first_valid_index_head)
    show "fillna (Fin 0) (map2 fl_mul (map (position_rule sh) (fillna (Fin 0) (shift 1 sg)))
            (fillna (Fin 0) (pct_change pr))) \<noteq> []"
      using ne by (simp add: fillna_def)
    show "hd (fillna (Fin 0) (map2 fl_mul (map (position_rule sh) (fillna (Fin 0) (shift 1 sg)))
            (fillna (Fin 0) (pct_change pr)))) \<noteq> NaN"
      using ne by (intro hd_fillna) simp_all
  qed
  then show ?thesis
    using assms by (simp add: truncate_portfolio_def make_portfolio_fields)
qed

lemma run_backtest_Some:
  assumes "run_backtest (Some d) (Some s) cap sh = Some p"
  obtains prices sigs where
    "column d ''Adj Close'' = Some prices" "column s ''signal'' = Some sigs"
    "index_intersection (index d) (index s) \<noteq> []"
    "p = make_portfolio (index_intersection (index d) (index s))
           (loc_values (index d) prices (index_intersection (index d) (index s)))
           (loc_values (index s) sigs (index_intersection (index d) (index s))) cap sh"
proof -
  from assms obtain prices sigs where
    c: "column d ''Adj Close'' = Some prices" "column s ''signal'' = Some sigs"
    and ne: "index_intersection (index d) (index s) \<noteq> []"
    and t: "truncate_portfolio (make_portfolio (index_intersection (index d) (index s))
           (loc_values (index d) prices (index_intersection (index d) (index s)))
           (loc_values (index s) sigs (index_intersection (index d) (index s))) cap sh) = Some p"
    by (auto simp: run_backtest_def Let_def split: option.splits if_splits)
  from t ne have "p = make_portfolio (index_intersection (index d) (index s))
           (loc_values (index d) prices (index_intersection (index d) (index s)))
           (loc_values (index s) sigs (index_intersection (index d) (index s))) cap sh"
    by (simp add: truncate_make_portfolio)
  with c ne show thesis by (rule that)
qed

lemma run_backtest_succeeds:
  assumes "\<not> frame_empty d" "\<not> frame_empty s"
    "column d ''Adj Close'' = Some prices" "column s ''signal'' = Some sigs"
    "index_intersection (index d) (index s) \<noteq> []"
  shows "run_backtest (Some d) (Some s) cap sh =
     Some (make_portfolio (index_intersection (index d) (index s))
           (loc_values (index d) prices (index_intersection (index d) (index s)))
           (loc_values (index s) sigs (index_intersection (index d) (index s))) cap sh)"
  using assms by (simp add: run_backtest_def Let_def truncate_make_portfolio)

lemma fl_div_NaN_right [simp]: "fl_div a NaN = NaN"
  by (cases a) simp_all

lemma fl_mul_NaN_right [simp]: "fl_mul a NaN = NaN"
  by (cases a) simp_all

lemma fl_add_NaN_right [simp]: "fl_add a NaN = NaN"
  by (cases a) simp_all

lemma fl_sub_NaN_left [simp]: "fl_sub NaN b = NaN"
  by (simp add: fl_sub_def)

lemma make_portfolio_first_row:
  assumes "length pr = length ci" "length sg = length ci" "ci \<noteq> []"
  shows "hd (market_return (make_portfolio ci pr sg cap sh)) = Fin 0"
    and "hd (position (make_portfolio ci pr sg cap sh)) = Fin 0"
    and "hd (strategy_return (make_portfolio ci pr sg cap sh)) = Fin 0"
    and "hd (equity_curve (make_portfolio ci pr sg cap sh)) = cap"
proof -
  obtain x xs y ys where pr: "pr = x # xs" and sg: "sg = y # ys"
    using assms by (cases pr; cases sg) auto
  have m: "hd (fillna (Fin 0) (pct_change (x # xs))) = Fin 0"
    by (simp add: pct_change_def ffill_def shift_def fillna_def Let_def)
  have mne: "fillna (Fin 0) (pct_change (x # xs)) \<noteq> []"
    by (simp add: fillna_def pct_change_def ffill_def shift_def Let_def)
  have p: "map (position_rule sh) (fillna (Fin 0) (shift 1 (y # ys)))
             = Fin 0 # map (position_rule sh) (fillna (Fin 0) (take (length ys) (y # ys)))"
    by (simp add: shift_def fillna_def)
  obtain ms where ms: "fillna (Fin 0) (pct_change (x # xs)) = Fin 0 # ms"
    using m mne by (cases "fillna (Fin 0) (pct_change (x # xs))") auto
  show "hd (market_return (make_portfolio ci pr sg cap sh)) = Fin 0"
    using m by (simp add: make_portfolio_fields pr)
  show "hd (position (make_portfolio ci pr sg cap sh)) = Fin 0"
    unfolding make_portfolio_fields sg p by simp
  have s1: "strategy_return (make_portfolio ci pr sg cap sh) =
      Fin 0 # fillna (Fin 0) (map2 fl_mul
        (map (position_rule sh) (fillna (Fin 0) (take (length ys) (y # ys)))) ms)"
    unfolding make_portfolio_fields(6) pr sg p ms by (simp add: fillna_def)
  show s0: "hd (strategy_return (make_portfolio ci pr sg cap sh)) = Fin 0"
    unfolding s1 by simp
  have "strategy_return (make_portfolio ci pr sg cap sh) \<noteq> []"
    unfolding s1 by simp
  then obtain ss where "strategy_return (make_portfolio ci pr sg cap sh) = Fin 0 # ss"
    using s0 by (cases "strategy_return (make_portfolio ci pr sg cap sh)") auto
  then show "hd (equity_curve (make_portfolio ci pr sg cap sh)) = cap"
    by (simp add: make_portfolio_fields(7) cumprod_def Let_def)
qed

lemma make_portfolio_lengths:
  assumes "length pr = length ci" "length sg = length ci"
  shows "length (market_return (make_portfolio ci pr sg cap sh)) = length ci"
    and "length (position (make_portfolio ci pr sg cap sh)) = length ci"
    and "length (strategy_return (make_portfolio ci pr sg cap sh)) = length ci"
    and "length (equity_curve (make_portfolio ci pr sg cap sh)) = length ci"
  using assms by (simp_all add: make_portfolio_fields)

text \<open>
  Claim C9. On every trajectory that the simulator returns, the index is the whole
  aligned index (the truncation removes no row, the first date included), and the first
  row has market return 0, position 0, strategy return 0 and equity equal to the initial
  capital.
\<close>

theorem first_row_is_flat:
  assumes "run_backtest (Some d) (Some s) cap sh = Some p"
  shows "p_index p = index_intersection (index d) (index s) \<and> p_index p \<noteq> []
       \<and> length (market_return p) = length (p_index p)
       \<and> length (position p) = length (p_index p)
       \<and> length (strategy_return p) = length (p_index p)
       \<and> length (equity_curve p) = length (p_index p)
       \<and> hd (market_return p) = Fin 0 \<and> hd (position p) = Fin 0
       \<and> hd (strategy_return p) = Fin 0 \<and> hd (equity_curve p) = cap"
proof -
  let ?ci = "index_intersection (index d) (index s)"
  from assms obtain prices sigs where ne: "?ci \<noteq> []"
    and p: "p = make_portfolio ?ci (loc_values (index d) prices ?ci)
                  (loc_values (index s) sigs ?ci) cap sh"
    by (rule run_backtest_Some)
  have l: "length (loc_values (index d) prices ?ci) = length ?ci"
          "length (loc_values (index s) sigs ?ci) = length ?ci"
    by simp_all
  show ?thesis
    unfolding p
    using make_portfolio_first_row [OF l ne, of cap sh] make_portfolio_lengths [OF l, of cap sh] ne
    by (simp add: make_portfolio_fields(1))
qed

lemma demo_run:
  "run_backtest (Some demo_prices) (Some demo_signals) cap sh =
     Some (make_portfolio [1, 2, 3] [Fin 100, Fin 110, Fin 121] [Fin (- 1), Fin 1, Fin 0] cap sh)"
  by (simp add: run_backtest_def demo_prices_def demo_signals_def frame_empty_def column_def
      index_intersection_def loc_values_def truncate_make_portfolio)

theorem first_row_is_flat_witness:
  "run_backtest (Some demo_prices) (Some demo_signals) (Fin 100000) True
     = Some (make_portfolio [1, 2, 3] [Fin 100, Fin 110, Fin 121] [Fin (- 1), Fin 1, Fin 0]
               (Fin 100000) True)
 \<and> hd (equity_curve (make_portfolio [1, 2, 3] [Fin 100, Fin 110, Fin 121]
        [Fin (- 1), Fin 1, Fin 0] (Fin 100000) True)) = Fin 100000
 \<and> hd (position (make_portfolio [1, 2, 3] [Fin 100, Fin 110, Fin 121]
        [Fin (- 1), Fin 1, Fin 0] (Fin 100000) True)) = Fin 0"
  using first_row_is_flat [OF demo_run [of "Fin 100000" True]] demo_run [of "Fin 100000" True]
  by simp

lemma map_of_zip_replicate:
  "d \<in> set idx \<Longrightarrow> map_of (zip idx (replicate (length idx) v)) d = Some v"
  by (induction idx) auto

lemma loc_values_replicate:
  "loc_values idx (replicate (length idx) v) idx = replicate (length idx) v"
  by (simp add: loc_values_def map_of_zip_replicate map_replicate_const cong: map_cong)

lemma index_intersection_self [simp]: "index_intersection idx idx = idx"
  by (simp add: index_intersection_def)

lemma map_constant: "\<forall>x\<in>set xs. f x = c \<Longrightarrow> map f xs = replicate (length xs) c"
  by (induction xs) simp_all

lemma set_shift: "set (shift n xs) \<subseteq> insert NaN (set xs)"
proof -
  have "set (shift n xs) \<subseteq> set (replicate n NaN @ xs)"
    unfolding shift_def by (rule set_take_subset)
  then show ?thesis by auto
qed

lemma position_of_flat_signals:
  "map (position_rule sh) (fillna (Fin 0) (shift 1 (replicate n (Fin 0)))) = replicate n (Fin 0)"
proof -
  have "\<forall>x\<in>set (shift 1 (replicate n (Fin 0))). position_rule sh (if x = NaN then Fin 0 else x) = Fin 0"
  proof
    fix x assume "x \<in> set (shift 1 (replicate n (Fin 0)))"
    then have "x = NaN \<or> x = Fin 0"
      using set_shift [of 1 "replicate n (Fin 0)"] by auto
    then show "position_rule sh (if x = NaN then Fin 0 else x) = Fin 0"
      by auto
  qed
  then have "map (\<lambda>x. position_rule sh (if x = NaN then Fin 0 else x)) (shift 1 (replicate n (Fin 0)))
      = replicate (length (shift 1 (replicate n (Fin 0)))) (Fin 0)"
    by (rule map_constant)
  then show ?thesis by (simp add: fillna_def comp_def)
qed

lemma flat_position_return:
  "length ms = n \<Longrightarrow> fillna (Fin 0) (map2 fl_mul (replicate n (Fin 0)) ms) = replicate n (Fin 0)"
proof (induction n arbitrary: ms)
  case 0
  then show ?case by (simp add: fillna_def)
next
  case (Suc n)
  then obtain m ms' where ms: "ms = m # ms'" "length ms' = n"
    by (cases ms) auto
  have "fl_mul (Fin 0) m = Fin 0 \<or> fl_mul (Fin 0) m = NaN"
    by (cases m) simp_all
  then show ?case
    using Suc.IH [OF ms(2)] ms by (auto simp: fillna_def)
qed

lemma cumprod_ones: "cumprod_from (Fin 1) (replicate n (Fin 1)) = replicate n (Fin 1)"
  by (induction n) (simp_all add: Let_def)

lemma make_portfolio_flat:
  assumes "length pr = n"
  shows "strategy_return (make_portfolio ci pr (replicate n (Fin 0)) cap sh) = replicate n (Fin 0)"
    and "equity_curve (make_portfolio ci pr (replicate n (Fin 0)) cap sh) = replicate n cap"
proof -
  show s: "strategy_return (make_portfolio ci pr (replicate n (Fin 0)) cap sh) = replicate n (Fin 0)"
    unfolding make_portfolio_fields(6) position_of_flat_signals
    by (rule flat_position_return) (simp add: assms)
  show "equity_curve (make_portfolio ci pr (replicate n (Fin 0)) cap sh) = replicate n cap"
    unfolding make_portfolio_fields(7) s by (simp add: cumprod_def cumprod_ones)
qed

text \<open>
  Claim C4. For a non-empty price series and a signal that is 0 on the same dates, the
  simulator returns a trajectory over those dates whose strategy return is 0 and whose
  equity is the initial capital at every date.
\<close>

theorem flat_signals_keep_capital:
  assumes "column d ''Adj Close'' = Some prices"
      and "index d \<noteq> []"
      and "index s = index d"
      and "column s ''signal'' = Some (replicate (length (index d)) (Fin 0))"
  shows "\<exists>p. run_backtest (Some d) (Some s) cap sh = Some p
           \<and> p_index p = index d
           \<and> strategy_return p = replicate (length (index d)) (Fin 0)
           \<and> equity_curve p = replicate (length (index d)) cap"
proof -
  let ?n = "length (index d)"
  have ne: "\<not> frame_empty d" "\<not> frame_empty s"
    using assms by (auto simp: frame_empty_def column_def)
  have ci: "index_intersection (index d) (index s) = index d"
    using assms(3) by simp
  have run: "run_backtest (Some d) (Some s) cap sh =
      Some (make_portfolio (index d) (loc_values (index d) prices (index d))
              (replicate ?n (Fin 0)) cap sh)"
    using run_backtest_succeeds [OF ne assms(1) assms(4), of cap sh] assms(2)
    unfolding ci assms(3) by (simp add: loc_values_replicate)
  have l: "length (loc_values (index d) prices (index d)) = ?n"
    by simp
  show ?thesis
    unfolding run using make_portfolio_flat [OF l, of "index d" cap sh]
    by (simp add: make_portfolio_fields(1))
qed

theorem flat_signals_keep_capital_witness:
  "\<exists>p. run_backtest (Some demo_prices) (Some demo_flat_signals) (Fin 100000) True = Some p
      \<and> p_index p = [1, 2, 3]
      \<and> strategy_return p = [Fin 0, Fin 0, Fin 0]
      \<and> equity_curve p = [Fin 100000, Fin 100000, Fin 100000]"
proof -
  have h: "column demo_prices ''Adj Close'' = Some [Fin 100, Fin 110, Fin 121]"
    "index demo_prices \<noteq> []" "index demo_flat_signals = index demo_prices"
    "column demo_flat_signals ''signal'' = Some (replicate (length (index demo_prices)) (Fin 0))"
    by (simp_all add: demo_prices_def demo_flat_signals_def column_def eval_nat_numeral)
  show ?thesis
    using flat_signals_keep_capital [OF h, of "Fin 100000" True]
    by (simp add: demo_prices_def eval_nat_numeral)
qed

text \<open>
  Claim C2. The simulator hands the failure value \<^verbatim>\<open>None\<close> to its caller when an input
  is \<^verbatim>\<open>None\<close> or empty, when the price or the signal column is missing, when the two
  indexes have no date in common, and when no row has a defined strategy return.
\<close>

theorem failures_return_None:
  "(data = None \<or> signals = None \<longrightarrow> run_backtest data signals cap sh = None)
 \<and> (frame_empty d \<or> frame_empty s \<longrightarrow> run_backtest (Some d) (Some s) cap sh = None)
 \<and> (column d ''Adj Close'' = None \<or> column s ''signal'' = None \<longrightarrow>
      run_backtest (Some d) (Some s) cap sh = None)
 \<and> (index_intersection (index d) (index s) = [] \<longrightarrow>
      run_backtest (Some d) (Some s) cap sh = None)
 \<and> (first_valid_index (strategy_return p) = None \<longrightarrow> truncate_portfolio p = None)"
  by (auto simp: run_backtest_def truncate_portfolio_def Let_def split: option.splits)

theorem failures_return_None_witness:
  "run_backtest None (Some demo_signals) (Fin 100000) False = None
 \<and> frame_empty \<lparr> index = [], columns = [(''Adj Close'', [])] \<rparr>
 \<and> run_backtest (Some \<lparr> index = [], columns = [(''Adj Close'', [])] \<rparr>) (Some demo_signals)
      (Fin 100000) False = None
 \<and> column demo_prices ''signal'' = None
 \<and> run_backtest (Some demo_prices) (Some demo_prices) (Fin 100000) False = None
 \<and> index_intersection (index demo_prices) (index demo_late_signals) = []
 \<and> run_backtest (Some demo_prices) (Some demo_late_signals) (Fin 100000) False = None
 \<and> first_valid_index (strategy_return demo_unfilled) = None
 \<and> truncate_portfolio demo_unfilled = None"
proof -
  have a: "(None :: frame option) = None \<or> Some demo_signals = None"
    by simp
  have b: "frame_empty \<lparr> index = [], columns = [(''Adj Close'', [])] \<rparr> \<or> frame_empty demo_signals"
    by (simp add: frame_empty_def)
  have c: "column demo_prices ''Adj Close'' = None \<or> column demo_prices ''signal'' = None"
    by (simp add: column_def demo_prices_def)
  have e: "index_intersection (index demo_prices) (index demo_late_signals) = []"
    by (simp add: index_intersection_def demo_prices_def demo_late_signals_def)
  have f: "first_valid_index (strategy_return demo_unfilled) = None"
    by (simp add: demo_unfilled_def)
  show ?thesis
    using failures_return_None [of None "Some demo_signals" "Fin 100000" False
        "\<lparr> index = [], columns = [(''Adj Close'', [])] \<rparr>" demo_signals demo_unfilled]
      failures_return_None [of None None "Fin 100000" False demo_prices demo_prices demo_unfilled]
      failures_return_None [of None None "Fin 100000" False demo_prices demo_late_signals demo_unfilled]
      a b c e f
    by (simp add: frame_empty_def column_def demo_prices_def)
qed

section \<open>Lag and shorting policy of the simulator\<close>

lemma lookup_agree:
  "length c1 = length idx \<Longrightarrow> length c2 = length idx \<Longrightarrow>
   \<forall>(dt, a, b) \<in> set (zip idx (zip c1 c2)). dt < D \<longrightarrow> a = b \<Longrightarrow>
   dt' < D \<Longrightarrow> map_of (zip idx c1) dt' = map_of (zip idx c2) dt'"
proof (induction idx arbitrary: c1 c2)
  case Nil
  then show ?case by simp
next
  case (Cons i idx)
  then obtain a c1' b c2' where c: "c1 = a # c1'" "c2 = b # c2'"
    by (cases c1; cases c2) auto
  show ?case
    using Cons.IH [of c1' c2'] Cons.prems unfolding c by auto
qed

lemma loc_values_nth:
  "i < length labels \<Longrightarrow>
   loc_values idx vals labels ! i =
     (case map_of (zip idx vals) (labels ! i) of Some v \<Rightarrow> v | None \<Rightarrow> NaN)"
  by (simp add: loc_values_def)

lemma shift_Suc_0_nth:
  "t < length xs \<Longrightarrow> shift (Suc 0) xs ! t = (if t = 0 then NaN else xs ! (t - 1))"
  using shift_one_nth [of t xs] by simp

lemma make_portfolio_position_nth:
  assumes "t < length sg"
  shows "position (make_portfolio ci pr sg cap sh) ! t =
           (if t = 0 then Fin 0 else position_rule sh (sg ! (t - 1)))"
  using assms by (simp add: make_portfolio_fields shift_Suc_0_nth fillna_nth)

lemma sorted_index_intersection:
  "sorted_wrt (<) a \<Longrightarrow> sorted_wrt (<) (index_intersection a b)"
  by (simp add: index_intersection_def sorted_wrt_filter)

text \<open>
  Claim C1. On a price series with increasing dates, the position at row \<open>t\<close> of the
  trajectory is 0 on the first row and otherwise the image of the signal of the row
  before: \<open>+1\<close> if it is positive, \<open>-1\<close> if it is negative and shorting is allowed, 0
  otherwise. The trajectory's signal column is the input signal read at the aligned
  dates. Hence two signal frames over the same dates whose signals agree at every date
  before the date of row \<open>t\<close> give the same position at row \<open>t\<close>.
\<close>

theorem position_from_earlier_signals:
  assumes r1: "run_backtest (Some d) (Some s1) cap1 sh = Some p1"
      and r2: "run_backtest (Some d) (Some s2) cap2 sh = Some p2"
      and same: "index s2 = index s1"
      and c1: "column s1 ''signal'' = Some c1"
      and c2: "column s2 ''signal'' = Some c2"
      and l1: "length c1 = length (index s1)"
      and l2: "length c2 = length (index s1)"
      and sorted: "sorted_wrt (<) (index d)"
      and t: "t < length (p_index p1)"
      and agree: "\<forall>(dt, a, b) \<in> set (zip (index s1) (zip c1 c2)). dt < p_index p1 ! t \<longrightarrow> a = b"
  shows "signal p1 = loc_values (index s1) c1 (p_index p1)
       \<and> position p1 ! t =
           (if t = 0 then Fin 0
            else if fl_gt (signal p1 ! (t - 1)) (Fin 0) then Fin 1
            else if fl_lt (signal p1 ! (t - 1)) (Fin 0) \<and> sh then Fin (- 1)
            else Fin 0)
       \<and> p_index p2 = p_index p1
       \<and> position p2 ! t = position p1 ! t"
proof -
  let ?ci = "index_intersection (index d) (index s1)"
  from r1 c1 obtain pr1 where
    p1: "p1 = make_portfolio ?ci (loc_values (index d) pr1 ?ci) (loc_values (index s1) c1 ?ci) cap1 sh"
    by (auto elim!: run_backtest_Some)
  from r2 c2 same obtain pr2 where
    p2: "p2 = make_portfolio ?ci (loc_values (index d) pr2 ?ci) (loc_values (index s1) c2 ?ci) cap2 sh"
    by (auto elim!: run_backtest_Some)
  have idx1: "p_index p1 = ?ci" and idx2: "p_index p2 = ?ci"
    by (simp_all add: p1 p2 make_portfolio_fields)
  have sig1: "signal p1 = loc_values (index s1) c1 ?ci"
    by (simp add: p1 make_portfolio_fields)
  have tl: "t < length ?ci" using t idx1 by simp
  have pos1: "position p1 ! t =
      (if t = 0 then Fin 0 else position_rule sh (loc_values (index s1) c1 ?ci ! (t - 1)))"
    unfolding p1 using tl by (simp add: make_portfolio_position_nth)
  have pos2: "position p2 ! t =
      (if t = 0 then Fin 0 else position_rule sh (loc_values (index s1) c2 ?ci ! (t - 1)))"
    unfolding p2 using tl by (simp add: make_portfolio_position_nth)
  have eq: "loc_values (index s1) c1 ?ci ! (t - 1) = loc_values (index s1) c2 ?ci ! (t - 1)"
    if "t \<noteq> 0"
  proof -
    have "sorted_wrt (<) ?ci"
      using sorted by (rule sorted_index_intersection)
    then have "?ci ! (t - 1) < ?ci ! t"
      using tl that by (simp add: sorted_wrt_nth_less)
    then have "map_of (zip (index s1) c1) (?ci ! (t - 1)) = map_of (zip (index s1) c2) (?ci ! (t - 1))"
      using lookup_agree [OF l1 l2 agree] idx1 by simp
    then show ?thesis
      using tl by (simp add: loc_values_nth)
  qed
  show ?thesis
    using sig1 pos1 pos2 eq idx1 idx2 by (auto simp: position_rule_def)
qed

lemma demo_other_run:
  "run_backtest (Some demo_prices) (Some demo_other_signals) cap sh =
     Some (make_portfolio [1, 2, 3] [Fin 100, Fin 110, Fin 121] [Fin (- 1), Fin 0, Fin (- 1)] cap sh)"
  by (simp add: run_backtest_def demo_prices_def demo_other_signals_def frame_empty_def column_def
      index_intersection_def loc_values_def truncate_make_portfolio)

theorem position_from_earlier_signals_witness:
  "position (make_portfolio [1, 2, 3] [Fin 100, Fin 110, Fin 121]
              [Fin (- 1), Fin 0, Fin (- 1)] (Fin 500) True) ! 1 = Fin (- 1)
 \<and> position (make_portfolio [1, 2, 3] [Fin 100, Fin 110, Fin 121]
              [Fin (- 1), Fin 1, Fin 0] (Fin 100000) True) ! 1 = Fin (- 1)"
proof -
  have h: "index demo_other_signals = index demo_signals"
    "column demo_signals ''signal'' = Some [Fin (- 1), Fin 1, Fin 0]"
    "column demo_other_signals ''signal'' = Some [Fin (- 1), Fin 0, Fin (- 1)]"
    "length [Fin (- 1), Fin 1, Fin 0] = length (index demo_signals)"
    "length [Fin (- 1), Fin 0, Fin (- 1)] = length (index demo_signals)"
    "sorted_wrt (<) (index demo_prices)"
    by (simp_all add: demo_signals_def demo_other_signals_def demo_prices_def column_def)
  have t: "1 < length (p_index (make_portfolio [1, 2, 3] [Fin 100, Fin 110, Fin 121]
                [Fin (- 1), Fin 1, Fin 0] (Fin 100000) True))"
    by (simp add: make_portfolio_fields)
  have a: "\<forall>(dt, a, b) \<in> set (zip (index demo_signals)
                (zip [Fin (- 1), Fin 1, Fin 0] [Fin (- 1), Fin 0, Fin (- 1)])).
             dt < p_index (make_portfolio [1, 2, 3] [Fin 100, Fin 110, Fin 121]
                [Fin (- 1), Fin 1, Fin 0] (Fin 100000) True) ! 1 \<longrightarrow> a = b"
    by (simp add: demo_signals_def make_portfolio_fields)
  show ?thesis
    using position_from_earlier_signals [OF demo_run [of "Fin 100000" True]
        demo_other_run [of "Fin 500" True] h t a]
    by (simp add: fl_gt_def make_portfolio_fields demo_signals_def loc_values_def)
qed

lemma column_replace_short_by_flat:
  "column (replace_short_by_flat s) ''signal'' =
     map_option (map (\<lambda>x. if x = Fin (- 1) then Fin 0 else x)) (column s ''signal'')"
proof -
  have "map_of (map (\<lambda>(name, vals).
                 if name = ''signal''
                 then (name, map (\<lambda>x. if x = Fin (- 1) then Fin 0 else x) vals)
                 else (name, vals)) cs) ''signal''
        = map_option (map (\<lambda>x. if x = Fin (- 1) then Fin 0 else x)) (map_of cs ''signal'')" for cs
    by (induction cs) auto
  then show ?thesis
    by (simp add: column_def replace_short_by_flat_def)
qed

lemma frame_empty_replace [simp]:
  "frame_empty (replace_short_by_flat s) = frame_empty s"
  by (simp add: frame_empty_def replace_short_by_flat_def)

lemma index_replace [simp]: "index (replace_short_by_flat s) = index s"
  by (simp add: replace_short_by_flat_def)

lemma map_of_zip_map_values:
  "map_of (zip idx (map f vals)) d = map_option f (map_of (zip idx vals) d)"
proof (induction idx arbitrary: vals)
  case Nil
  then show ?case by simp
next
  case (Cons i idx)
  then show ?case by (cases vals) auto
qed

lemma loc_values_map:
  "f NaN = NaN \<Longrightarrow> loc_values idx (map f vals) labels = map f (loc_values idx vals labels)"
  by (auto simp: loc_values_def map_of_zip_map_values split: option.splits)

lemma set_loc_values: "set (loc_values idx vals labels) \<subseteq> insert NaN (set vals)"
proof
  fix x assume "x \<in> set (loc_values idx vals labels)"
  then obtain d where x: "x = (case map_of (zip idx vals) d of Some v \<Rightarrow> v | None \<Rightarrow> NaN)"
    by (auto simp: loc_values_def)
  show "x \<in> insert NaN (set vals)"
  proof (cases "map_of (zip idx vals) d")
    case None
    then show ?thesis using x by simp
  next
    case (Some v)
    then have "(d, v) \<in> set (zip idx vals)" by (rule map_of_SomeD)
    then have "v \<in> set vals" by (rule set_zip_rightD)
    then show ?thesis using x Some by simp
  qed
qed

lemma shift_map: "f NaN = NaN \<Longrightarrow> shift n (map f xs) = map f (shift n xs)"
  by (simp add: shift_def take_map)

lemma position_rule_flattened:
  assumes "b \<Longrightarrow> fl_lt x (Fin 0) \<Longrightarrow> x = Fin (- 1)"
  shows "position_rule b (if x = Fin (- 1) then Fin 0 else x) = position_rule False x"
  using assms by (auto simp: position_rule_def fl_gt_def)

lemma position_flattened:
  assumes "b \<Longrightarrow> \<forall>x\<in>set sg. fl_lt x (Fin 0) \<longrightarrow> x = Fin (- 1)"
  shows "position (make_portfolio ci pr (map (\<lambda>x. if x = Fin (- 1) then Fin 0 else x) sg) cap b)
       = position (make_portfolio ci pr sg cap False)"
proof -
  let ?f = "\<lambda>x. if x = Fin (- 1) then Fin 0 else x"
  have el: "position_rule b (if ?f x = NaN then Fin 0 else ?f x)
          = position_rule False (if x = NaN then Fin 0 else x)" if "x \<in> set (shift 1 sg)" for x
  proof -
    have "x = NaN \<or> x \<in> set sg"
      using that set_shift [of 1 sg] by auto
    then have "b \<Longrightarrow> fl_lt x (Fin 0) \<Longrightarrow> x = Fin (- 1)"
      using assms by auto
    then show ?thesis
      using position_rule_flattened [of b x] by (simp only: position_rule_fill)
  qed
  have "map (position_rule b) (fillna (Fin 0) (shift 1 (map ?f sg)))
      = map (\<lambda>x. position_rule b (if ?f x = NaN then Fin 0 else ?f x)) (shift 1 sg)"
    by (simp add: shift_map fillna_def comp_def)
  also have "\<dots> = map (\<lambda>x. position_rule False (if x = NaN then Fin 0 else x)) (shift 1 sg)"
    using el by (simp cong: map_cong)
  also have "\<dots> = map (position_rule False) (fillna (Fin 0) (shift 1 sg))"
    by (simp add: fillna_def comp_def)
  finally show ?thesis
    by (simp only: make_portfolio_fields)
qed

lemma computed_columns_by_position:
  "position (make_portfolio ci pr sg cap b) = position (make_portfolio ci pr sg' cap b') \<Longrightarrow>
   computed_columns (make_portfolio ci pr sg cap b) = computed_columns (make_portfolio ci pr sg' cap b')"
  by (simp add: computed_columns_def make_portfolio_def Let_def)

text \<open>
  Claim C3 (amended). Running the simulator with shorting disabled gives the same
  trajectory, apart from the column that echoes the input signal, as replacing every
  \<open>-1\<close> of the signal by 0 and running it with shorting disabled; and with shorting
  enabled too when \<open>-1\<close> is the only negative signal value.
\<close>

theorem shorting_disabled_is_flattening:
  assumes col: "column s ''signal'' = Some vs"
      and unit: "b \<Longrightarrow> \<forall>x\<in>set vs. fl_lt x (Fin 0) \<longrightarrow> x = Fin (- 1)"
  shows "map_option computed_columns (run_backtest data (Some (replace_short_by_flat s)) cap b)
       = map_option computed_columns (run_backtest data (Some s) cap False)"
proof (cases data)
  case None
  then show ?thesis by (simp add: run_backtest_def)
next
  case (Some d)
  let ?f = "\<lambda>x. if x = Fin (- 1) then Fin 0 else x"
  let ?ci = "index_intersection (index d) (index s)"
  have col': "column (replace_short_by_flat s) ''signal'' = Some (map ?f vs)"
    using col by (simp add: column_replace_short_by_flat)
  show ?thesis
  proof (cases "frame_empty d \<or> frame_empty s \<or> column d ''Adj Close'' = None \<or> ?ci = []")
    case True
    then show ?thesis
      unfolding Some by (auto simp: run_backtest_def Let_def split: option.splits)
  next
    case False
    then obtain prices where pr: "column d ''Adj Close'' = Some prices"
      by auto
    have ne: "\<not> frame_empty d" "\<not> frame_empty s" "?ci \<noteq> []"
      using False by auto
    let ?pr = "loc_values (index d) prices ?ci"
    let ?sg = "loc_values (index s) vs ?ci"
    have r1: "run_backtest (Some d) (Some s) cap False = Some (make_portfolio ?ci ?pr ?sg cap False)"
      using run_backtest_succeeds [OF ne(1,2) pr col ne(3)] .
    have ne': "\<not> frame_empty (replace_short_by_flat s)"
      "index_intersection (index d) (index (replace_short_by_flat s)) \<noteq> []"
      using ne by simp_all
    have r2: "run_backtest (Some d) (Some (replace_short_by_flat s)) cap b
        = Some (make_portfolio ?ci ?pr (map ?f ?sg) cap b)"
      using run_backtest_succeeds [OF ne(1) ne'(1) pr col' ne'(2), of cap b]
      by (simp add: loc_values_map)
    have "b \<Longrightarrow> \<forall>x\<in>set ?sg. fl_lt x (Fin 0) \<longrightarrow> x = Fin (- 1)"
      using unit set_loc_values [of "index s" vs ?ci] by auto
    then have "position (make_portfolio ?ci ?pr (map ?f ?sg) cap b)
        = position (make_portfolio ?ci ?pr ?sg cap False)"
      by (rule position_flattened)
    then have "computed_columns (make_portfolio ?ci ?pr (map ?f ?sg) cap b)
        = computed_columns (make_portfolio ?ci ?pr ?sg cap False)"
      by (rule computed_columns_by_position)
    then show ?thesis
      unfolding Some r1 r2 by simp
  qed
qed

theorem shorting_disabled_is_flattening_witness:
  "map_option computed_columns
     (run_backtest (Some demo_prices) (Some (replace_short_by_flat demo_signals)) (Fin 100000) True)
   = Some ([1, 2, 3], [Fin 100, Fin 110, Fin 121], [Fin 0, Fin 0, Fin 1],
           [Fin 0, Fin (1/10), Fin (1/10)], [Fin 0, Fin 0, Fin (1/10)],
           [Fin 1, Fin (11/10), Fin (121/100)], [Fin 1, Fin 1, Fin (11/10)],
           [Fin 100000, Fin 100000, Fin 110000])"
proof -
  have c: "column demo_signals ''signal'' = Some [Fin (- 1), Fin 1, Fin 0]"
    by (simp add: demo_signals_def column_def)
  have u: "True \<Longrightarrow> \<forall>x\<in>set [Fin (- 1), Fin 1, Fin 0]. fl_lt x (Fin 0) \<longrightarrow> x = Fin (- 1)"
    by simp
  have e: "map_option computed_columns
      (run_backtest (Some demo_prices) (Some (replace_short_by_flat demo_signals)) (Fin 100000) True)
    = map_option computed_columns
      (run_backtest (Some demo_prices) (Some demo_signals) (Fin 100000) False)"
    using c u by (rule shorting_disabled_is_flattening)
  show ?thesis
    unfolding e demo_run
    by (simp add: computed_columns_def make_portfolio_def Let_def fillna_def shift_def
        pct_change_def ffill_def cumprod_def position_rule_def fl_gt_def fl_sub_def)
qed

text \<open>
  The trajectory carries the input signal as a column, so the two runs are not equal as
  whole trajectories: the signal column reads \<open>-1\<close> in one and 0 in the other.
\<close>

theorem shorting_trajectory_counterexample:
  "run_backtest (Some demo_prices) (Some demo_signals) (Fin 100000) False
     \<noteq> run_backtest (Some demo_prices) (Some (replace_short_by_flat demo_signals)) (Fin 100000) False"
proof -
  have c: "column demo_signals ''signal'' = Some [Fin (- 1), Fin 1, Fin 0]"
    by (simp add: demo_signals_def column_def)
  have "map_option signal (run_backtest (Some demo_prices) (Some demo_signals) (Fin 100000) False)
      = Some [Fin (- 1), Fin 1, Fin 0]"
    by (simp add: demo_run make_portfolio_fields)
  moreover have "map_option signal
      (run_backtest (Some demo_prices) (Some (replace_short_by_flat demo_signals)) (Fin 100000) False)
      = Some [Fin 0, Fin 1, Fin 0]"
    by (simp add: run_backtest_def demo_prices_def demo_signals_def replace_short_by_flat_def
        frame_empty_def column_def index_intersection_def loc_values_def truncate_make_portfolio
        make_portfolio_fields)
  ultimately show ?thesis by auto
qed

section \<open>The SMA crossover on a rising series\<close>

lemma window_at_0 [simp]: "window_at w (x # xs) 0 = (if w = 0 then [] else [x])"
  by (simp add: window_at_def)

lemma short_sma_ten:
  "rolling_mean 2 2 (map Fin [p0, p1, p2, p3, p4, p5, p6, p7, p8, p9]) =
     [NaN, round64 ((p0 + p1) / 2), round64 ((p1 + p2) / 2), round64 ((p2 + p3) / 2),
      round64 ((p3 + p4) / 2), round64 ((p4 + p5) / 2), round64 ((p5 + p6) / 2),
      round64 ((p6 + p7) / 2), round64 ((p7 + p8) / 2), round64 ((p8 + p9) / 2)]"
  by (simp add: rolling_mean_def window_at_def window_mean_def Let_def numeral_nat)

lemma long_sma_ten:
  "rolling_mean 3 3 (map Fin [p0, p1, p2, p3, p4, p5, p6, p7, p8, p9]) =
     [NaN, NaN, round64 ((p0 + (p1 + p2)) / 3), round64 ((p1 + (p2 + p3)) / 3),
      round64 ((p2 + (p3 + p4)) / 3), round64 ((p3 + (p4 + p5)) / 3),
      round64 ((p4 + (p5 + p6)) / 3), round64 ((p5 + (p6 + p7)) / 3),
      round64 ((p6 + (p7 + p8)) / 3), round64 ((p7 + (p8 + p9)) / 3)]"
  by (simp add: rolling_mean_def window_at_def window_mean_def Let_def numeral_nat)

text \<open>
  Halves of whole numbers below \<open>2^52\<close> are float64 values. Hence, for whole-number
  prices below \<open>2^50\<close>, the mean of two is exact, and the rounded mean of three
  increasing ones stays at least one half below the mean of the last two.
\<close>

lemma short_average_exact:
  assumes "a \<in> \<int>" "b \<in> \<int>" "0 < a" "a < b" "b < 2 ^ 50"
  shows "round64 ((a + b) / 2) = Fin ((a + b) / 2)"
proof -
  obtain na where "a = of_int na"
    using assms(1) by (rule Ints_cases)
  moreover obtain nb where "b = of_int nb"
    using assms(2) by (rule Ints_cases)
  ultimately have n: "a = of_int na" "b = of_int nb" .
  have "0 < na" "na < nb" "nb < 2 ^ 50"
    using assms(3-5) unfolding n by simp_all
  then have "\<bar>na + nb\<bar> < 2 ^ 52" by simp
  then have "is_float64 (of_int (na + nb) / 2)"
    by (rule is_float64_half)
  then have "round64 (of_int (na + nb) / 2) = Fin (of_int (na + nb) / 2)"
    by (rule round64_float)
  then show ?thesis by (simp add: n)
qed

lemma long_average_below_short:
  assumes "c \<in> \<int>" "a \<in> \<int>" "b \<in> \<int>" "0 < c" "c < a" "a < b" "b < 2 ^ 50"
  obtains l where "round64 ((c + (a + b)) / 3) = Fin l" "l < (a + b) / 2"
proof -
  obtain nc where "c = of_int nc"
    using assms(1) by (rule Ints_cases)
  moreover obtain na where "a = of_int na"
    using assms(2) by (rule Ints_cases)
  moreover obtain nb where "b = of_int nb"
    using assms(3) by (rule Ints_cases)
  ultimately have n: "c = of_int nc" "a = of_int na" "b = of_int nb" .
  have i: "0 < nc" "nc < na" "na < nb" "nb < 2 ^ 50"
    using assms(4-7) unfolding n by simp_all
  then have "\<bar>na + nb - 1\<bar> < 2 ^ 52" by simp
  then have fl: "is_float64 (of_int (na + nb - 1) / 2)"
    by (rule is_float64_half)
  have "2 * (nc + (na + nb)) \<le> 3 * (na + nb - 1)"
    using i by simp
  then have "2 * (of_int nc + (of_int na + of_int nb)) \<le> (3 * of_int (na + nb - 1) :: real)"
    by (metis (mono_tags) of_int_add of_int_le_iff of_int_mult of_int_numeral)
  then have up: "(c + (a + b)) / 3 \<le> of_int (na + nb - 1) / 2"
    by (simp add: n)
  have "0 \<le> (c + (a + b)) / 3"
    using assms(4-6) by simp
  then obtain l where l: "round64 ((c + (a + b)) / 3) = Fin l" "l \<le> of_int (na + nb - 1) / 2"
    using round64_below_float [OF _ up fl] by auto
  have "l < (a + b) / 2"
    using l(2) by (simp add: n)
  with l(1) show thesis by (rule that)
qed

lemma assign_where_same:
  "assign_where m v (replicate n v) = replicate (min (length m) n) v"
proof (induction m arbitrary: n)
  case Nil
  then show ?case by (simp add: assign_where_def)
next
  case (Cons b m)
  then show ?case by (cases n) (simp_all add: assign_where_def)
qed

lemma length_mask_and [simp]: "length (mask_and a b) = min (length a) (length b)"
  by (simp add: mask_and_def)

lemma length_compare_rows [simp]: "length (compare_rows r a b) = min (length a) (length b)"
  by (simp add: compare_rows_def)

lemma length_rolling_mean [simp]: "length (rolling_mean w m xs) = length xs"
  by (simp add: rolling_mean_def)

lemma sma_signal_increasing_ten:
  assumes inc: "p0 < p1" "p1 < p2" "p2 < p3" "p3 < p4" "p4 < p5" "p5 < p6" "p6 < p7" "p7 < p8"
    "p8 < p9"
      and whole: "\<forall>p\<in>set [p0, p1, p2, p3, p4, p5, p6, p7, p8, p9]. p \<in> \<int> \<and> 0 < p \<and> p < 2 ^ 50"
  shows "sma_signal 2 3 (map Fin [p0, p1, p2, p3, p4, p5, p6, p7, p8, p9]) = replicate 10 (Fin 0)"
proof -
  define P where "P = map Fin [p0, p1, p2, p3, p4, p5, p6, p7, p8, p9]"
  have len: "length P = 10"
    by (simp add: P_def)
  have w: "p0 \<in> \<int>" "p1 \<in> \<int>" "p2 \<in> \<int>" "p3 \<in> \<int>" "p4 \<in> \<int>" "p5 \<in> \<int>" "p6 \<in> \<int>" "p7 \<in> \<int>"
    "p8 \<in> \<int>" "p9 \<in> \<int>"
    and pos: "0 < p0" "0 < p1" "0 < p2" "0 < p3" "0 < p4" "0 < p5" "0 < p6" "0 < p7" "0 < p8"
    and top: "p1 < 2 ^ 50" "p2 < 2 ^ 50" "p3 < 2 ^ 50" "p4 < 2 ^ 50" "p5 < 2 ^ 50" "p6 < 2 ^ 50"
      "p7 < 2 ^ 50" "p8 < 2 ^ 50" "p9 < 2 ^ 50"
    using whole by simp_all
  obtain l2 where l2: "round64 ((p0 + (p1 + p2)) / 3) = Fin l2" "l2 < (p1 + p2) / 2"
    using w pos inc top by (blast intro: long_average_below_short)
  obtain l3 where l3: "round64 ((p1 + (p2 + p3)) / 3) = Fin l3" "l3 < (p2 + p3) / 2"
    using w pos inc top by (blast intro: long_average_below_short)
  obtain l4 where l4: "round64 ((p2 + (p3 + p4)) / 3) = Fin l4" "l4 < (p3 + p4) / 2"
    using w pos inc top by (blast intro: long_average_below_short)
  obtain l5 where l5: "round64 ((p3 + (p4 + p5)) / 3) = Fin l5" "l5 < (p4 + p5) / 2"
    using w pos inc top by (blast intro: long_average_below_short)
  obtain l6 where l6: "round64 ((p4 + (p5 + p6)) / 3) = Fin l6" "l6 < (p5 + p6) / 2"
    using w pos inc top by (blast intro: long_average_below_short)
  obtain l7 where l7: "round64 ((p5 + (p6 + p7)) / 3) = Fin l7" "l7 < (p6 + p7) / 2"
    using w pos inc top by (blast intro: long_average_below_short)
  obtain l8 where l8: "round64 ((p6 + (p7 + p8)) / 3) = Fin l8" "l8 < (p7 + p8) / 2"
    using w pos inc top by (blast intro: long_average_below_short)
  obtain l9 where l9: "round64 ((p7 + (p8 + p9)) / 3) = Fin l9" "l9 < (p8 + p9) / 2"
    using w pos inc top by (blast intro: long_average_below_short)
  have short: "rolling_mean 2 2 P =
      [NaN, Fin ((p0 + p1) / 2), Fin ((p1 + p2) / 2), Fin ((p2 + p3) / 2), Fin ((p3 + p4) / 2),
       Fin ((p4 + p5) / 2), Fin ((p5 + p6) / 2), Fin ((p6 + p7) / 2), Fin ((p7 + p8) / 2),
       Fin ((p8 + p9) / 2)]"
    unfolding P_def short_sma_ten
    using w pos inc top by (simp add: short_average_exact)
  have long: "rolling_mean 3 3 P =
      [NaN, NaN, Fin l2, Fin l3, Fin l4, Fin l5, Fin l6, Fin l7, Fin l8, Fin l9]"
    unfolding P_def long_sma_ten
    by (simp only: l2(1) l3(1) l4(1) l5(1) l6(1) l7(1) l8(1) l9(1))
  note below = l2(2) l3(2) l4(2) l5(2) l6(2) l7(2) l8(2) l9(2)
  have up: "mask_and (compare_rows fl_gt (shift 1 (rolling_mean 2 2 P)) (shift 1 (rolling_mean 3 3 P)))
                     (compare_rows fl_le (shift 2 (rolling_mean 2 2 P)) (shift 2 (rolling_mean 3 3 P)))
            = replicate 10 False"
    unfolding short long using below
    by (simp add: mask_and_def compare_rows_def shift_def fl_le_def fl_eq_def fl_gt_def numeral_nat)
  have down: "mask_and (compare_rows fl_lt (shift 1 (rolling_mean 2 2 P)) (shift 1 (rolling_mean 3 3 P)))
                     (compare_rows fl_ge (shift 2 (rolling_mean 2 2 P)) (shift 2 (rolling_mean 3 3 P)))
            = replicate 10 False"
    unfolding short long using below
    by (simp add: mask_and_def compare_rows_def shift_def fl_ge_def fl_le_def fl_eq_def numeral_nat)
  have keep: "assign_where (replicate 10 False) v (replicate 10 (Fin 0)) = replicate 10 (Fin 0)" for v
    by (simp add: assign_where_def numeral_nat)
  have fill: "fillna (Fin 0) (ffill (replicate 10 (Fin 0))) = replicate 10 (Fin 0)"
    by (simp add: fillna_def ffill_def numeral_nat)
  have flat: "length m = 10 \<Longrightarrow> assign_where m (Fin 0) (replicate 10 (Fin 0)) = replicate 10 (Fin 0)" for m
    by (simp add: assign_where_same)
  have l1: "length (mask_and (map (\<lambda>x. fl_eq x (Fin 1)) (shift 1 (replicate 10 (Fin 0))))
                (compare_rows fl_lt (rolling_mean 2 2 P) (rolling_mean 3 3 P))) = 10"
    by (simp add: len)
  have l2': "length (mask_and (map (\<lambda>x. fl_eq x (Fin (- 1))) (shift 1 (replicate 10 (Fin 0))))
                (compare_rows fl_gt (rolling_mean 2 2 P) (rolling_mean 3 3 P))) = 10"
    by (simp add: len)
  have "sma_signal 2 3 P = replicate 10 (Fin 0)"
    unfolding sma_signal_def Let_def len up down keep fill flat [OF l1] flat [OF l2'] ..
  then show ?thesis by (simp only: P_def)
qed

lemma fl_sum_zeros: "\<forall>x\<in>set xs. x = Fin 0 \<Longrightarrow> fl_sum xs = Fin 0"
  by (induction xs) simp_all

lemma total_trades_flat:
  assumes "position p = replicate n (Fin 0)"
  shows "total_trades p = Fin 0"
proof -
  define A where "A = replicate n (Fin 0)"
  define B where "B = shift 1 (replicate n (Fin 0))"
  let ?xs = "map fl_abs (fillna (Fin 0) (diff (replicate n (Fin 0))))"
  have A: "a = Fin 0" if "a \<in> set A" for a
    using that by (simp add: A_def)
  have B: "b = NaN \<or> b = Fin 0" if "b \<in> set B" for b
    using that set_shift [of 1 "replicate n (Fin 0)"] unfolding B_def by auto
  have d: "diff (replicate n (Fin 0)) = map2 fl_sub A B"
    by (simp only: diff_def A_def B_def)
  have el: "x = Fin 0" if "x \<in> set ?xs" for x
  proof -
    from that obtain y where y: "y \<in> set (map2 fl_sub A B)"
      and x: "x = fl_abs (if y = NaN then Fin 0 else y)"
      unfolding d by (auto simp: fillna_def)
    from y obtain a b where ab: "(a, b) \<in> set (zip A B)" "y = fl_sub a b"
      by auto
    have "a = Fin 0" "b = NaN \<or> b = Fin 0"
      using A [OF set_zip_leftD [OF ab(1)]] B [OF set_zip_rightD [OF ab(1)]] by simp_all
    then have "y = NaN \<or> y = Fin 0"
      using ab(2) by (auto simp: fl_sub_def)
    then show ?thesis using x by auto
  qed
  have "\<forall>x\<in>set ?xs. x \<noteq> NaN"
    using el by blast
  then have "dropna ?xs = ?xs"
    unfolding dropna_def filter_id_conv .
  then have "series_sum ?xs = Fin 0"
    using el by (simp add: series_sum_def fl_sum_zeros)
  then show ?thesis
    by (simp add: total_trades_def assms)
qed

lemma run_backtest_flat:
  assumes "column d ''Adj Close'' = Some prices" "index d \<noteq> []"
  shows "run_backtest (Some d)
           (Some \<lparr> index = index d, columns = [(''signal'', replicate (length (index d)) (Fin 0))] \<rparr>)
           cap sh
         = Some (make_portfolio (index d) (loc_values (index d) prices (index d))
                   (replicate (length (index d)) (Fin 0)) cap sh)"
proof -
  let ?s = "\<lparr> index = index d, columns = [(''signal'', replicate (length (index d)) (Fin 0))] \<rparr>"
  have ne: "\<not> frame_empty d" "\<not> frame_empty ?s"
    using assms by (auto simp: frame_empty_def column_def)
  have c: "column ?s ''signal'' = Some (replicate (length (index d)) (Fin 0))"
    by (simp add: column_def)
  have i: "index_intersection (index d) (index ?s) \<noteq> []"
    using assms(2) by simp
  show ?thesis
    using run_backtest_succeeds [OF ne assms(1) c i, of cap sh]
    by (simp add: loc_values_replicate)
qed

lemma sma_rising_pipeline:
  assumes col: "column d ''Adj Close'' = Some (map Fin ps)"
      and len: "length ps = 10" "length (index d) = 10"
      and inc: "sorted_wrt (<) ps"
      and whole: "\<forall>p\<in>set ps. p \<in> \<int> \<and> 0 < p \<and> p < 2 ^ 50"
  shows "SMACrossoverStrategy d 2 3 = Inr \<lparr> sma_data = d, short_window = 2, long_window = 3 \<rparr>"
    and "sma_generate_signals \<lparr> sma_data = d, short_window = 2, long_window = 3 \<rparr>
           = Inr \<lparr> index = index d, columns = [(''signal'', replicate 10 (Fin 0))] \<rparr>"
    and "sma_crossover_total_trades d 2 3 cap sh = Inr (Some (Fin 0))"
proof -
  let ?st = "\<lparr> sma_data = d, short_window = 2, long_window = 3 \<rparr>"
  let ?sg = "\<lparr> index = index d, columns = [(''signal'', replicate 10 (Fin 0))] \<rparr>"
  have ne: "\<not> frame_empty d" and ine: "index d \<noteq> []"
    using col len by (auto simp: frame_empty_def column_def)
  show st: "SMACrossoverStrategy d 2 3 = Inr ?st"
    using ne len by (simp add: SMACrossoverStrategy_def)
  obtain p0 p1 p2 p3 p4 p5 p6 p7 p8 p9 where ps: "ps = [p0, p1, p2, p3, p4, p5, p6, p7, p8, p9]"
    using len(1) by (auto simp: numeral_nat length_Suc_conv)
  have "sma_signal 2 3 (map Fin ps) = replicate 10 (Fin 0)"
    unfolding ps using inc [unfolded ps] whole [unfolded ps]
    by (intro sma_signal_increasing_ten) simp_all
  then show sg: "sma_generate_signals ?st = Inr ?sg"
    using col by (simp add: sma_generate_signals_def)
  have run: "run_backtest (Some d) (Some ?sg) cap sh
      = Some (make_portfolio (index d) (loc_values (index d) (map Fin ps) (index d))
                (replicate 10 (Fin 0)) cap sh)"
    using run_backtest_flat [OF col ine, of cap sh] len(2) by simp
  have "total_trades (make_portfolio (index d) (loc_values (index d) (map Fin ps) (index d))
                (replicate 10 (Fin 0)) cap sh) = Fin 0"
    by (rule total_trades_flat [of _ 10]) (simp only: make_portfolio_fields(4) position_of_flat_signals)
  then show "sma_crossover_total_trades d 2 3 cap sh = Inr (Some (Fin 0))"
    using ine by (simp add: sma_crossover_total_trades_def st sg run metrics_total_trades_def
        make_portfolio_fields(1))
qed

lemma rising_prices_facts:
  "column rising_prices ''Adj Close'' = Some (map Fin [1, 2, 3, 4, 5, 6, 7, 8, 9, 10])"
  "length [1, 2, 3, 4, 5, 6, 7, 8, 9, 10 :: real] = 10"
  "length (index rising_prices) = 10"
  "sorted_wrt (<) [1, 2, 3, 4, 5, 6, 7, 8, 9, 10 :: real]"
  "\<forall>p\<in>set [1, 2, 3, 4, 5, 6, 7, 8, 9, 10 :: real]. p \<in> \<int> \<and> 0 < p \<and> p < 2 ^ 50"
  by (simp_all add: rising_prices_def column_def)

text \<open>
  On the prices 1 to 10 the Total Trades entry is 0, not 1.
\<close>

theorem sma_rising_total_trades_counterexample:
  "sma_crossover_total_trades rising_prices 2 3 (Fin 100000) True \<noteq> Inr (Some (Fin 1))"
  using sma_rising_pipeline(3) [OF rising_prices_facts, where cap = "Fin 100000" and sh = True] by simp

text \<open>
  Claim C5 (amended). For every strictly increasing 10-point price series whose
  prices are positive whole numbers below \<open>2^50\<close>, the SMA crossover strategy with
  windows 2 and 3 is constructed, emits the signal 0 on every date (so never the
  short entry \<open>-1\<close>, and no long entry either: the short average is above the long
  one from the first date on which both exist, so no crossing is observed), and the
  simulator and metrics give Total Trades 0.

  The bound on the prices is what keeps the float64 averages in order: the mean of
  two such prices is a float64 value, and the rounded mean of three stays at least
  one half below it. Without it the rounded averages of a strictly increasing series
  can coincide, and a long entry is then emitted.
\<close>

theorem sma_rising_never_trades:
  assumes "column d ''Adj Close'' = Some (map Fin ps)"
      and "length ps = 10" and "length (index d) = 10"
      and "sorted_wrt (<) ps"
      and "\<forall>p\<in>set ps. p \<in> \<int> \<and> 0 < p \<and> p < 2 ^ 50"
  shows "SMACrossoverStrategy d 2 3 = Inr \<lparr> sma_data = d, short_window = 2, long_window = 3 \<rparr>
       \<and> sma_generate_signals \<lparr> sma_data = d, short_window = 2, long_window = 3 \<rparr>
           = Inr \<lparr> index = index d, columns = [(''signal'', replicate 10 (Fin 0))] \<rparr>
       \<and> Fin (- 1) \<notin> set (replicate 10 (Fin 0))
       \<and> sma_crossover_total_trades d 2 3 cap sh = Inr (Some (Fin 0))"
  using sma_rising_pipeline(1,2) [OF assms] sma_rising_pipeline(3) [OF assms, of cap sh] by simp

theorem sma_rising_never_trades_witness:
  "sma_generate_signals \<lparr> sma_data = rising_prices, short_window = 2, long_window = 3 \<rparr>
     = Inr \<lparr> index = [1, 2, 3, 4, 5, 6, 7, 8, 9, 10],
             columns = [(''signal'', [Fin 0, Fin 0, Fin 0, Fin 0, Fin 0, Fin 0, Fin 0, Fin 0, Fin 0, Fin 0])] \<rparr>
 \<and> sma_crossover_total_trades rising_prices 2 3 (Fin 100000) True = Inr (Some (Fin 0))"
  using sma_rising_never_trades [OF rising_prices_facts, where cap = "Fin 100000" and sh = True]
  by (simp add: rising_prices_def numeral_nat)

text \<open>
  The bound on the prices cannot be dropped. The prices \<open>10^16 + 2k\<close> are float64 values
  and strictly increasing, but the mean of two neighbours is an odd whole number above
  \<open>2^53\<close> and is rounded to one of them, so that the short average equals the long one
  on every second date and the strategy enters long on the dates 6, 8 and 10.
\<close>

lemma round64_ties_demo:
  "round64 10000000000000001 = Fin 10000000000000000"
  "round64 10000000000000003 = Fin 10000000000000004"
  "round64 10000000000000005 = Fin 10000000000000004"
  "round64 10000000000000007 = Fin 10000000000000008"
  "round64 10000000000000009 = Fin 10000000000000008"
  "round64 10000000000000011 = Fin 10000000000000012"
  "round64 10000000000000013 = Fin 10000000000000012"
  "round64 10000000000000015 = Fin 10000000000000016"
  "round64 10000000000000017 = Fin 10000000000000016"
  using round64_tie [of 5000000000000000]
    round64_tie [of 5000000000000001]
    round64_tie [of 5000000000000002]
    round64_tie [of 5000000000000003]
    round64_tie [of 5000000000000004]
    round64_tie [of 5000000000000005]
    round64_tie [of 5000000000000006]
    round64_tie [of 5000000000000007]
    round64_tie [of 5000000000000008]
  by simp_all

lemma round64_evens_demo:
  "round64 10000000000000002 = Fin 10000000000000002"
  "round64 10000000000000004 = Fin 10000000000000004"
  "round64 10000000000000006 = Fin 10000000000000006"
  "round64 10000000000000008 = Fin 10000000000000008"
  "round64 10000000000000010 = Fin 10000000000000010"
  "round64 10000000000000012 = Fin 10000000000000012"
  "round64 10000000000000014 = Fin 10000000000000014"
  "round64 10000000000000016 = Fin 10000000000000016"
  using round64_even [of 5000000000000001]
    round64_even [of 5000000000000002]
    round64_even [of 5000000000000003]
    round64_even [of 5000000000000004]
    round64_even [of 5000000000000005]
    round64_even [of 5000000000000006]
    round64_even [of 5000000000000007]
    round64_even [of 5000000000000008]
  by simp_all

lemma tie_short_sma:
  "rolling_mean 2 2 (map Fin tie_prices) = [NaN, Fin 10000000000000000, Fin 10000000000000004, Fin
     10000000000000004, Fin 10000000000000008, Fin 10000000000000008, Fin 10000000000000012, Fin
     10000000000000012, Fin 10000000000000016, Fin 10000000000000016]"
  unfolding tie_prices_def short_sma_ten by (simp add: round64_ties_demo)

lemma tie_long_sma:
  "rolling_mean 3 3 (map Fin tie_prices) = [NaN, NaN, Fin 10000000000000002, Fin
     10000000000000004, Fin 10000000000000006, Fin 10000000000000008, Fin 10000000000000010, Fin
     10000000000000012, Fin 10000000000000014, Fin 10000000000000016]"
  unfolding tie_prices_def long_sma_ten by (simp add: round64_evens_demo)

lemma tie_signal:
  "sma_signal 2 3 (map Fin tie_prices) = [Fin 0, Fin 0, Fin 0, Fin 0, Fin 0, Fin 1, Fin 0, Fin 1, Fin 0, Fin 1]"
proof -
  have len: "length (map Fin tie_prices) = 10"
    by (simp add: tie_prices_def)
  have up: "mask_and (compare_rows fl_gt (shift 1 (rolling_mean 2 2 (map Fin tie_prices))) (shift 1 (rolling_mean 3 3 (map Fin tie_prices))))
                     (compare_rows fl_le (shift 2 (rolling_mean 2 2 (map Fin tie_prices))) (shift 2 (rolling_mean 3 3 (map Fin tie_prices))))
            = [False, False, False, False, False, True, False, True, False, True]"
    unfolding tie_short_sma tie_long_sma
    by (simp add: mask_and_def compare_rows_def shift_def fl_le_def fl_eq_def fl_gt_def numeral_nat)
  have down: "mask_and (compare_rows fl_lt (shift 1 (rolling_mean 2 2 (map Fin tie_prices))) (shift 1 (rolling_mean 3 3 (map Fin tie_prices))))
                     (compare_rows fl_ge (shift 2 (rolling_mean 2 2 (map Fin tie_prices))) (shift 2 (rolling_mean 3 3 (map Fin tie_prices))))
            = replicate 10 False"
    unfolding tie_short_sma tie_long_sma
    by (simp add: mask_and_def compare_rows_def shift_def fl_ge_def fl_le_def fl_eq_def numeral_nat)
  have s1: "assign_where [False, False, False, False, False, True, False, True, False, True] (Fin 1)
              (replicate 10 (Fin 0))
            = [Fin 0, Fin 0, Fin 0, Fin 0, Fin 0, Fin 1, Fin 0, Fin 1, Fin 0, Fin 1]"
    by (simp add: assign_where_def numeral_nat)
  have s2: "assign_where (replicate 10 False) v [Fin 0, Fin 0, Fin 0, Fin 0, Fin 0, Fin 1, Fin 0, Fin 1, Fin 0, Fin 1]
            = [Fin 0, Fin 0, Fin 0, Fin 0, Fin 0, Fin 1, Fin 0, Fin 1, Fin 0, Fin 1]" for v
    by (simp add: assign_where_def numeral_nat)
  have s3: "fillna (Fin 0) (ffill [Fin 0, Fin 0, Fin 0, Fin 0, Fin 0, Fin 1, Fin 0, Fin 1, Fin 0, Fin 1])
            = [Fin 0, Fin 0, Fin 0, Fin 0, Fin 0, Fin 1, Fin 0, Fin 1, Fin 0, Fin 1]"
    by (simp add: fillna_def ffill_def)
  have sell: "mask_and (map (\<lambda>x. fl_eq x (Fin 1)) (shift 1 [Fin 0, Fin 0, Fin 0, Fin 0, Fin 0, Fin 1, Fin 0, Fin 1, Fin 0, Fin 1]))
                (compare_rows fl_lt (rolling_mean 2 2 (map Fin tie_prices)) (rolling_mean 3 3 (map Fin tie_prices)))
              = replicate 10 False"
    unfolding tie_short_sma tie_long_sma
    by (simp add: mask_and_def compare_rows_def shift_def fl_eq_def numeral_nat)
  have cover: "mask_and (map (\<lambda>x. fl_eq x (Fin (- 1))) (shift 1 [Fin 0, Fin 0, Fin 0, Fin 0, Fin 0, Fin 1, Fin 0, Fin 1, Fin 0, Fin 1]))
                (compare_rows fl_gt (rolling_mean 2 2 (map Fin tie_prices)) (rolling_mean 3 3 (map Fin tie_prices)))
              = replicate 10 False"
    unfolding tie_short_sma tie_long_sma
    by (simp add: mask_and_def compare_rows_def shift_def fl_eq_def numeral_nat)
  show ?thesis
    unfolding sma_signal_def Let_def len up down s1
    by (simp only: s2 s3 sell cover)
qed

section \<open>The mean-reversion signal\<close>

lemma sqrt_half_bounds: "sqrt (1/2) < 9/10" "- (9/10) < sqrt (1/2)"
proof -
  show "sqrt (1/2) < 9/10"
    by (rule real_less_lsqrt) (simp_all add: power2_eq_square)
  have "0 \<le> sqrt (1/2)" by simp
  then show "- (9/10) < sqrt (1/2)" by linarith
qed

lemma demo_rolling_mean:
  "rolling_mean 3 2 [Fin 1, Fin 2, Fin 3, Fin 1, Fin 5, Fin 3] = [NaN, Fin (3/2), Fin 2, Fin 2, Fin 3, Fin 3]"
  by (simp add: rolling_mean_def window_at_def window_mean_def Let_def numeral_nat
      round64_small_halves)

lemma demo_rolling_std:
  "rolling_std 3 2 [Fin 1, Fin 2, Fin 3, Fin 1, Fin 5, Fin 3] = [NaN, Fin (sqrt (1/2)), Fin 1, Fin 1, Fin 2, Fin 2]"
  by (simp add: rolling_std_def window_at_def window_std_def Let_def numeral_nat)

lemma half_over_sqrt_half: "(1/2) / sqrt (1/2) = sqrt (1/2 :: real)"
  by (rule real_div_sqrt) simp

lemma demo_z_scores:
  "z_score_shifted 3 [Fin 1, Fin 2, Fin 3, Fin 1, Fin 5, Fin 3] =
     [NaN, NaN, Fin (sqrt (1/2)), Fin 1, Fin (- 1), Fin 1]"
proof -
  have mp: "4 * 3 div 5 = (2::nat)" by simp
  have std: "map (\<lambda>x. if fl_eq x (Fin 0) then NaN else x)
               [NaN, Fin (sqrt (1/2)), Fin 1, Fin 1, Fin 2, Fin 2]
             = [NaN, Fin (sqrt (1/2)), Fin 1, Fin 1, Fin 2, Fin 2]"
    by (simp add: fl_eq_def)
  have z: "map2 fl_div (map2 fl_sub [Fin 1, Fin 2, Fin 3, Fin 1, Fin 5, Fin 3]
                          [NaN, Fin (3/2), Fin 2, Fin 2, Fin 3, Fin 3])
                       [NaN, Fin (sqrt (1/2)), Fin 1, Fin 1, Fin 2, Fin 2]
           = [NaN, Fin (sqrt (1/2)), Fin 1, Fin (- 1), Fin 1, Fin 0]"
    using half_over_sqrt_half by (simp add: fl_sub_def)
  show ?thesis
    unfolding z_score_shifted_def Let_def mp demo_rolling_mean demo_rolling_std std z
    by (simp add: shift_def)
qed

lemma demo_mr_signal:
  "mr_signal (Fin (9/10)) (Fin (1/2)) [NaN, NaN, Fin (sqrt (1/2)), Fin 1, Fin (- 1), Fin 1]
     = [Fin 0, Fin 0, Fin 0, Fin (- 1), Fin 0, Fin 0]"
  using sqrt_half_bounds
  by (simp add: mr_signal_def Let_def assign_where_def mask_and_def shift_def fl_gt_def fl_eq_def
      numeral_nat)

lemma demo_mr_recurrence:
  "mr_recurrence (Fin (9/10)) (Fin (1/2)) NaN [NaN, NaN, Fin (sqrt (1/2)), Fin 1, Fin (- 1), Fin 1]
     = [Fin 0, Fin 0, Fin 0, Fin (- 1), Fin 0, Fin (- 1)]"
  using sqrt_half_bounds
  by (simp add: mr_entry_def Let_def fl_gt_def fl_eq_def)

lemma demo_mr_column:
  "column (mr_data demo_mr_strategy) ''Adj Close'' = Some [Fin 1, Fin 2, Fin 3, Fin 1, Fin 5, Fin 3]"
  by (simp add: demo_mr_strategy_def demo_mr_prices_def column_def)

text \<open>
  Prices 1, 2, 3, 1, 5, 3 with window 3, entry threshold 0.9 and exit threshold 0.5: the
  lagged z-scores of the last three days are 1, -1, 1. The program flattens the last
  day, because the day before was a long entry, although that day's final signal is 0
  (its short exit fired); the recurrence on final signals keeps the short entry.
\<close>

theorem mr_recurrence_counterexample:
  "MeanReversionStrategy demo_mr_prices 3 (Fin (9/10)) (Fin (1/2)) = Inr demo_mr_strategy
 \<and> mr_generate_signals demo_mr_strategy
     = Inr \<lparr> index = [1, 2, 3, 4, 5, 6],
             columns = [(''signal'', [Fin 0, Fin 0, Fin 0, Fin (- 1), Fin 0, Fin 0])] \<rparr>
 \<and> mr_recurrence (Fin (9/10)) (Fin (1/2)) NaN (z_score_shifted 3 [Fin 1, Fin 2, Fin 3, Fin 1, Fin 5, Fin 3])
     = [Fin 0, Fin 0, Fin 0, Fin (- 1), Fin 0, Fin (- 1)]"
proof -
  have a: "MeanReversionStrategy demo_mr_prices 3 (Fin (9/10)) (Fin (1/2)) = Inr demo_mr_strategy"
    by (simp add: MeanReversionStrategy_def demo_mr_strategy_def demo_mr_prices_def frame_empty_def)
  have b: "mr_generate_signals demo_mr_strategy
     = Inr \<lparr> index = [1, 2, 3, 4, 5, 6],
             columns = [(''signal'', [Fin 0, Fin 0, Fin 0, Fin (- 1), Fin 0, Fin 0])] \<rparr>"
    unfolding mr_generate_signals_def demo_mr_column
    by (simp add: demo_mr_strategy_def demo_z_scores demo_mr_signal demo_mr_prices_def)
  show ?thesis
    using a b by (simp only: demo_z_scores demo_mr_recurrence)
qed

lemma length_z_score_shifted [simp]: "length (z_score_shifted w prices) = length prices"
  by (simp add: z_score_shifted_def rolling_std_def Let_def)

lemma length_assign_where [simp]: "length (assign_where m v xs) = min (length m) (length xs)"
  by (simp add: assign_where_def)

lemma assign_where_nth:
  "i < length m \<Longrightarrow> i < length xs \<Longrightarrow> assign_where m v xs ! i = (if m ! i then v else xs ! i)"
  by (simp add: assign_where_def)

lemma mask_and_nth:
  "i < length a \<Longrightarrow> i < length b \<Longrightarrow> mask_and a b ! i = (a ! i \<and> b ! i)"
  by (simp add: mask_and_def)

lemma previous_is_nth:
  "i < length xs \<Longrightarrow>
   fl_eq (shift (Suc 0) xs ! i) (Fin c) = (0 < i \<and> xs ! (i - Suc 0) = Fin c)"
  by (auto simp: shift_Suc_0_nth fl_eq_def)

lemma mr_signal_nth:
  assumes "t < length zs"
  shows "mr_signal entry exit zs ! t =
     (let entered = (\<lambda>i. mr_entry entry (zs ! i));
          long_exited = (\<lambda>i. if 0 < i \<and> entered (i - 1) = Fin 1 \<and> fl_gt (zs ! i) (fl_neg exit)
                              then Fin 0 else entered i)
      in if 0 < t \<and> long_exited (t - 1) = Fin (- 1) \<and> fl_lt (zs ! t) exit
         then Fin 0 else long_exited t)"
proof -
  define n where "n = length zs"
  define signal1 where
    "signal1 = assign_where (map (\<lambda>z. fl_lt z (fl_neg entry)) zs) (Fin 1) (replicate n (Fin 0))"
  define signal2 where "signal2 = assign_where (map (\<lambda>z. fl_gt z entry) zs) (Fin (- 1)) signal1"
  define signal3 where
    "signal3 = assign_where (mask_and (map (\<lambda>x. fl_eq x (Fin 1)) (shift 1 signal2))
                                      (map (\<lambda>z. fl_gt z (fl_neg exit)) zs)) (Fin 0) signal2"
  define signal4 where
    "signal4 = assign_where (mask_and (map (\<lambda>x. fl_eq x (Fin (- 1))) (shift 1 signal3))
                                      (map (\<lambda>z. fl_lt z exit) zs)) (Fin 0) signal3"
  have l: "length signal1 = n" "length signal2 = n" "length signal3 = n"
    by (simp_all add: signal1_def signal2_def signal3_def n_def)
  have s2: "signal2 ! i = mr_entry entry (zs ! i)" if "i < n" for i
    using that by (simp add: signal2_def signal1_def assign_where_nth n_def mr_entry_def)
  have s3: "signal3 ! i =
      (if 0 < i \<and> mr_entry entry (zs ! (i - 1)) = Fin 1 \<and> fl_gt (zs ! i) (fl_neg exit)
       then Fin 0 else mr_entry entry (zs ! i))" if "i < n" for i
  proof -
    have "i - 1 < n" using that by simp
    then show ?thesis
      using that l s2 [of i] s2 [of "i - 1"]
      by (simp add: signal3_def assign_where_nth mask_and_nth previous_is_nth n_def)
  qed
  have s4: "signal4 ! t =
      (if 0 < t \<and> signal3 ! (t - 1) = Fin (- 1) \<and> fl_lt (zs ! t) exit then Fin 0 else signal3 ! t)"
    using assms l by (simp add: signal4_def assign_where_nth mask_and_nth previous_is_nth n_def)
  have t: "t < n" "t - 1 < n"
    using assms by (simp_all add: n_def)
  have eq: "mr_signal entry exit zs = signal4"
    by (simp only: mr_signal_def Let_def signal4_def signal3_def signal2_def signal1_def n_def)
  show ?thesis
    unfolding eq s4 Let_def using s3 [OF t(1)] s3 [OF t(2)] by simp
qed

text \<open>
  Claim C6 (amended). The mean-reversion signal is computed in passes over the whole
  column, not as a recurrence. The entry of day \<open>t\<close> is \<open>-1\<close> when the lagged z-score is
  above the entry threshold, else \<open>+1\<close> when it is below its negative, else 0. The
  long exit sets day \<open>t\<close> to 0 when the entry of day \<open>t-1\<close> was \<open>+1\<close> and the lagged
  z-score of \<open>t\<close> is above minus the exit threshold. The short exit then sets day \<open>t\<close>
  to 0 when the signal of day \<open>t-1\<close> after the long exit was \<open>-1\<close> and the lagged
  z-score of \<open>t\<close> is below the exit threshold. The exit tests read the previous day's
  signal as the earlier passes left it, not its final value.
\<close>

theorem mr_signal_passes:
  assumes "column (mr_data st) ''Adj Close'' = Some prices"
      and "t < length prices"
  shows "mr_generate_signals st =
           Inr \<lparr> index = index (mr_data st),
                 columns = [(''signal'', mr_signal (entry_z st) (exit_z st)
                                (z_score_shifted (mr_window st) prices))] \<rparr>
       \<and> length (mr_signal (entry_z st) (exit_z st) (z_score_shifted (mr_window st) prices))
           = length prices
       \<and> mr_signal (entry_z st) (exit_z st) (z_score_shifted (mr_window st) prices) ! t =
           (let zs = z_score_shifted (mr_window st) prices;
                entered = (\<lambda>i. if fl_gt (zs ! i) (entry_z st) then Fin (- 1)
                                else if fl_lt (zs ! i) (fl_neg (entry_z st)) then Fin 1
                                else Fin 0);
                long_exited = (\<lambda>i. if 0 < i \<and> entered (i - 1) = Fin 1
                                       \<and> fl_gt (zs ! i) (fl_neg (exit_z st))
                                    then Fin 0 else entered i)
            in if 0 < t \<and> long_exited (t - 1) = Fin (- 1) \<and> fl_lt (zs ! t) (exit_z st)
               then Fin 0 else long_exited t)"
proof -
  have len: "length (mr_signal (entry_z st) (exit_z st) (z_score_shifted (mr_window st) prices))
           = length prices"
    by (simp add: mr_signal_def Let_def)
  have "t < length (z_score_shifted (mr_window st) prices)"
    using assms(2) by simp
  from mr_signal_nth [OF this, of "entry_z st" "exit_z st"] len assms(1)
  show ?thesis
    by (simp add: mr_generate_signals_def mr_entry_def Let_def)
qed

theorem mr_signal_passes_witness:
  "mr_generate_signals demo_mr_strategy =
     Inr \<lparr> index = [1, 2, 3, 4, 5, 6],
           columns = [(''signal'', mr_signal (Fin (9/10)) (Fin (1/2))
                          [NaN, NaN, Fin (sqrt (1/2)), Fin 1, Fin (- 1), Fin 1])] \<rparr>
 \<and> mr_signal (Fin (9/10)) (Fin (1/2)) [NaN, NaN, Fin (sqrt (1/2)), Fin 1, Fin (- 1), Fin 1] ! 5
     = Fin 0"
proof -
  have t: "5 < length [Fin 1, Fin 2, Fin 3, Fin 1, Fin 5, Fin 3]"
    by simp
  have st: "mr_window demo_mr_strategy = 3" "entry_z demo_mr_strategy = Fin (9/10)"
    "exit_z demo_mr_strategy = Fin (1/2)" "index (mr_data demo_mr_strategy) = [1, 2, 3, 4, 5, 6]"
    by (simp_all add: demo_mr_strategy_def demo_mr_prices_def)
  show ?thesis
    using mr_signal_passes [OF demo_mr_column t]
    unfolding st demo_z_scores
    by (simp add: fl_gt_def Let_def)
qed

end
